theory Spec2Isabelle
  imports Complex_Main "HOL-Library.Sublist"
begin

section \<open>Text primitives of the Python runtime\<close>

text \<open>
  Texts are lists of characters whose codes range over 0..255; a character stands for the
  code point of the same number. Within that range the whitespace of \<^verbatim>\<open>str.strip\<close>,
  \<^verbatim>\<open>str.split\<close> and the regular expression class \<^verbatim>\<open>\s\<close> is the set recognised by
  \<open>is_space\<close>, and the class \<^verbatim>\<open>\d\<close> is the ten ASCII digits.
\<close>

definition is_space :: "char \<Rightarrow> bool" where
  "is_space c =
     (let n = (of_char c :: nat)
      in (9 \<le> n \<and> n \<le> 13) \<or> (28 \<le> n \<and> n \<le> 31) \<or> n = 32 \<or> n = 133 \<or> n = 160)"

definition is_digit :: "char \<Rightarrow> bool" where
  "is_digit c = (let n = (of_char c :: nat) in 48 \<le> n \<and> n \<le> 57)"

definition nbsp :: char where
  "nbsp = char_of (160 :: nat)"

definition strip :: "string \<Rightarrow> string" where
  "strip s = rev (dropWhile is_space (rev (dropWhile is_space s)))"

definition replace_char :: "char \<Rightarrow> char \<Rightarrow> string \<Rightarrow> string" where
  "replace_char old new s = map (\<lambda>c. if c = old then new else c) s"

text \<open>\<^verbatim>\<open>str.split()\<close> without arguments: the maximal runs of non-whitespace characters.\<close>

fun split_aux :: "string \<Rightarrow> string \<Rightarrow> string list" where
  "split_aux cur [] = (if cur = [] then [] else [cur])"
| "split_aux cur (c # cs) =
     (if is_space c then (if cur = [] then split_aux [] cs else cur # split_aux [] cs)
      else split_aux (cur @ [c]) cs)"

definition split_ws :: "string \<Rightarrow> string list" where
  "split_ws s = split_aux [] s"

fun join :: "string \<Rightarrow> string list \<Rightarrow> string" where
  "join sep [] = []"
| "join sep [x] = x"
| "join sep (x # y # ys) = x @ sep @ join sep (y # ys)"

text \<open>\<^verbatim>\<open>str.lower\<close> on the code points 0..255: the ASCII capitals and the Latin-1 capitals
  \<^verbatim>\<open>\xc0\<close>..\<^verbatim>\<open>\xde\<close> (without the multiplication sign \<^verbatim>\<open>\xd7\<close>) move up by 32.\<close>

definition lower_char :: "char \<Rightarrow> char" where
  "lower_char c =
     (let n = (of_char c :: nat)
      in if (65 \<le> n \<and> n \<le> 90) \<or> (192 \<le> n \<and> n \<le> 222 \<and> n \<noteq> 215)
         then char_of (n + 32) else c)"

definition lower :: "string \<Rightarrow> string" where
  "lower s = map lower_char s"

text \<open>\<^verbatim>\<open>a in b\<close> on strings: \<open>a\<close> occurs in \<open>b\<close> as a contiguous run.\<close>

fun contains :: "string \<Rightarrow> string \<Rightarrow> bool" where
  "contains [] pat = (pat = [])"
| "contains (c # cs) pat = (prefix pat (c # cs) \<or> contains cs pat)"

section \<open>clean_line\<close>

definition clean_line :: "string \<Rightarrow> string" where
  "clean_line t = join '' '' (split_ws (replace_char nbsp (CHR '' '') t))"

section \<open>is_numbered_heading\<close>

record num_info =
  numbering :: string
  title :: string
  level :: int

text \<open>The repetition \<^verbatim>\<open>(?:\.\d+)*\<close>: as long as a dot followed by at least one digit
  comes next, it is consumed together with the whole run of digits. The result is the
  consumed text and the rest.\<close>

function dot_groups :: "string \<Rightarrow> string \<times> string" where
  "dot_groups s =
     (case s of
        [] \<Rightarrow> ([], [])
      | c # r \<Rightarrow>
          if c = CHR ''.'' \<and> takeWhile is_digit r \<noteq> []
          then (let (g, rest) = dot_groups (dropWhile is_digit r)
                in (c # takeWhile is_digit r @ g, rest))
          else ([], s))"
  by pat_completeness auto
termination
  by (relation "measure length") (auto simp: le_imp_less_Suc length_dropWhile_le)

text \<open>
  The pattern is \<^verbatim>\<open>^\s*(\d+(?:\.\d+)*)(?:\s+|-)\s*(.*)\<close>, applied with \<^verbatim>\<open>re.match\<close>.
  A shorter numbering than the greedy one is followed by a digit or a dot, never by
  whitespace or a hyphen, so the greedy reading is the only one that can match. Group 2
  stops at the first line feed. The function returns \<open>None\<close> where the source returns
  \<^verbatim>\<open>None\<close>.
\<close>

definition is_numbered_heading :: "string \<Rightarrow> num_info option" where
  "is_numbered_heading t =
     (if t = [] then None
      else
        let s = dropWhile is_space t;
            ds = takeWhile is_digit s
        in if ds = [] then None
           else
             let (g, r) = dot_groups (dropWhile is_digit s);
                 num = ds @ g
             in (case r of
                   [] \<Rightarrow> None
                 | c # r' \<Rightarrow>
                     if is_space c \<or> c = CHR ''-''
                     then
                       let r2 = dropWhile is_space r';
                           rest = strip (takeWhile (\<lambda>x. x \<noteq> CHR 0x0A) r2)
                       in Some \<lparr>numbering = num, title = rest,
                                level = int (count_list num (CHR ''.'')) + 1\<rparr>
                     else None))"

section \<open>The layout parser's data\<close>

text \<open>
  A span as \<^verbatim>\<open>page.get_text("dict")\<close> delivers it, with the defaults of the source
  (\<^verbatim>\<open>""\<close>, \<^verbatim>\<open>0\<close>, \<^verbatim>\<open>""\<close>) already filled in for missing keys. Font sizes are
  rationals: the comparisons of the source are read over exact numbers.
\<close>

record span =
  span_text :: string
  span_size :: rat
  span_font :: string

type_synonym line = "span list"

text \<open>Block type 0 is a text block with its lines, type 1 an image block; every other
  type is \<open>OtherBlock\<close>.\<close>

datatype block = TextBlock "line list" | ImageBlock | OtherBlock

record page =
  blocks :: "block list"
  raw_text :: string
  images :: "nat list"

type_synonym doc = "page list"

text \<open>\<^verbatim>\<open>round(x, 1)\<close>: to one decimal, ties to the even neighbour.\<close>

definition round1 :: "rat \<Rightarrow> rat" where
  "round1 x =
     (let y = x * 10;
          f = \<lfloor>y\<rfloor>;
          d = y - of_int f
      in of_int (if d < 1 / 2 then f
                 else if 1 / 2 < d then f + 1
                 else if even f then f else f + 1) / 10)"

section \<open>gather_font_sizes\<close>

fun block_sizes :: "block \<Rightarrow> rat list" where
  "block_sizes (TextBlock ls) = map (\<lambda>s. round1 (span_size s)) (concat ls)"
| "block_sizes ImageBlock = []"
| "block_sizes OtherBlock = []"

definition all_sizes :: "doc \<Rightarrow> rat list" where
  "all_sizes d = concat (map (\<lambda>p. concat (map block_sizes (blocks p))) d)"

definition gather_font_sizes :: "doc \<Rightarrow> rat list" where
  "gather_font_sizes d = rev (sort (remdups (all_sizes d)))"

text \<open>Lines 236 and 237 of \<^verbatim>\<open>parse_pdf\<close>.\<close>

definition section_size_of :: "rat list \<Rightarrow> rat option" where
  "section_size_of sizes = (if length sizes \<ge> 1 then Some (sizes ! 0) else None)"

definition subsection_size_of :: "rat list \<Rightarrow> rat option" where
  "subsection_size_of sizes = (if length sizes \<ge> 2 then Some (sizes ! 1) else None)"

section \<open>Content items\<close>

text \<open>
  \<open>Heading level text\<close>, \<open>Paragraph section sub_section text\<close>,
  \<open>Chart section description chart_data\<close>, \<open>Table section description table_data\<close>.
\<close>

datatype item =
    Heading int string
  | Paragraph "string option" "string option" string
  | Chart "string option" string "string list list option"
  | Table "string option" "string option" "string list list"

section \<open>extract_paragraphs_and_headings_from_page\<close>

record builder =
  current_section :: "string option"
  current_sub :: "string option"
  content :: "item list"
  paragraph_buffer :: "string list"

definition flush_paragraph :: "builder \<Rightarrow> builder" where
  "flush_paragraph st =
     (if paragraph_buffer st \<noteq> []
      then st\<lparr>content := content st @
                  [Paragraph (current_section st) (current_sub st)
                     (clean_line (join '' '' (paragraph_buffer st)))],
              paragraph_buffer := []\<rparr>
      else st)"

text \<open>Truth value of an optional number: \<^verbatim>\<open>None\<close> and zero are false.\<close>

definition truthy :: "rat option \<Rightarrow> bool" where
  "truthy s = (case s of None \<Rightarrow> False | Some x \<Rightarrow> x \<noteq> 0)"

text \<open>\<^verbatim>\<open>a or b\<close> for an optional number \<open>a\<close> and a number \<open>b\<close>.\<close>

definition py_or :: "rat option \<Rightarrow> rat \<Rightarrow> rat" where
  "py_or a b = (case a of None \<Rightarrow> b | Some x \<Rightarrow> if x \<noteq> 0 then x else b)"

text \<open>\<^verbatim>\<open>statistics.mean\<close> of a non-empty list.\<close>

definition mean :: "rat list \<Rightarrow> rat" where
  "mean xs = sum_list xs / of_nat (length xs)"

text \<open>\<^verbatim>\<open>size and max_size >= (size - tol)\<close>, the guard of lines 93 and 104, over exact
  numbers. The source subtracts in binary floating point; the two readings can differ
  only where the line's largest size is exactly the size minus the tolerance.\<close>

definition size_match :: "rat option \<Rightarrow> rat \<Rightarrow> rat \<Rightarrow> bool" where
  "size_match s max_size tol =
     (case s of None \<Rightarrow> False | Some x \<Rightarrow> x \<noteq> 0 \<and> max_size \<ge> x - tol)"

text \<open>The guard of line 126.\<close>

definition bold_short :: "bool \<Rightarrow> string \<Rightarrow> rat \<Rightarrow> rat option \<Rightarrow> rat option \<Rightarrow> bool" where
  "bold_short is_bold line_text max_size section_size subsection_size =
     (is_bold \<and> length line_text < 120 \<and>
      max_size > (if truthy subsection_size
                  then mean [py_or subsection_size (py_or section_size max_size)]
                  else max_size))"

text \<open>
  The branches of the line loop, lines 93 to 135, each ending in \<^verbatim>\<open>continue\<close>: the
  first guard that holds decides what is done with the line.
\<close>

datatype rule = SectionSize | SubsectionSize | Numbered | BoldShort | Body

definition which_rule ::
  "rat option \<Rightarrow> rat option \<Rightarrow> rat \<Rightarrow> rat \<Rightarrow> bool \<Rightarrow> string \<Rightarrow> num_info option \<Rightarrow> rule" where
  "which_rule section_size subsection_size tol max_size is_bold line_text num =
     (if size_match section_size max_size tol then SectionSize
      else if size_match subsection_size max_size tol then SubsectionSize
      else if num \<noteq> None then Numbered
      else if bold_short is_bold line_text max_size section_size subsection_size then BoldShort
      else Body)"

definition line_text_of :: "line \<Rightarrow> string" where
  "line_text_of spans = strip (concat (map span_text spans))"

definition is_bold_of :: "line \<Rightarrow> bool" where
  "is_bold_of spans =
     list_ex (\<lambda>f. contains f ''Bold'' \<or> contains (lower f) ''bold'') (map span_font spans)"

definition heading_text_of :: "num_info option \<Rightarrow> string \<Rightarrow> string" where
  "heading_text_of num line_text =
     (case num of
        Some ni \<Rightarrow> if title ni \<noteq> [] then title ni else line_text
      | None \<Rightarrow> line_text)"

definition emit_section :: "string \<Rightarrow> builder \<Rightarrow> builder" where
  "emit_section t st =
     (let st1 = flush_paragraph st
      in st1\<lparr>current_section := Some t, current_sub := None,
              content := content st1 @ [Heading 1 t]\<rparr>)"

definition emit_subsection :: "string \<Rightarrow> builder \<Rightarrow> builder" where
  "emit_subsection t st =
     (let st1 = flush_paragraph st
      in st1\<lparr>current_sub := Some t, content := content st1 @ [Heading 2 t]\<rparr>)"

definition process_line ::
  "rat option \<Rightarrow> rat option \<Rightarrow> rat \<Rightarrow> builder \<Rightarrow> line \<Rightarrow> builder" where
  "process_line section_size subsection_size tol st spans =
     (case spans of
        [] \<Rightarrow> st
      | s # ss \<Rightarrow>
          let line_text = line_text_of spans
          in if line_text = [] then st
             else
               let max_size = fold max (map (\<lambda>x. round1 (span_size x)) ss) (round1 (span_size s));
                   is_bold = is_bold_of spans;
                   num = is_numbered_heading line_text;
                   heading_text = heading_text_of num line_text
               in (case which_rule section_size subsection_size tol max_size is_bold line_text num of
                     SectionSize \<Rightarrow> emit_section heading_text st
                   | SubsectionSize \<Rightarrow> emit_subsection heading_text st
                   | Numbered \<Rightarrow>
                       (if map_option level num = Some 1 then emit_section heading_text st
                        else emit_subsection heading_text st)
                   | BoldShort \<Rightarrow> emit_subsection line_text st
                   | Body \<Rightarrow> st\<lparr>paragraph_buffer := paragraph_buffer st @ [line_text]\<rparr>))"

definition process_block ::
  "rat option \<Rightarrow> rat option \<Rightarrow> rat \<Rightarrow> block \<Rightarrow> builder \<Rightarrow> builder" where
  "process_block section_size subsection_size tol b st =
     (case b of
        TextBlock ls \<Rightarrow> fold (\<lambda>l acc. process_line section_size subsection_size tol acc l) ls st
      | ImageBlock \<Rightarrow>
          (let st1 = flush_paragraph st
           in st1\<lparr>content := content st1 @
                     [Chart (current_section st1)
                        ''image block detected (image data handled separately)'' None]\<rparr>)
      | OtherBlock \<Rightarrow> flush_paragraph st)"

definition init_builder :: builder where
  "init_builder =
     \<lparr>current_section = None, current_sub = None, content = [], paragraph_buffer = []\<rparr>"

definition extract_paragraphs_and_headings_from_page ::
  "page \<Rightarrow> rat option \<Rightarrow> rat option \<Rightarrow> rat \<Rightarrow> item list" where
  "extract_paragraphs_and_headings_from_page p section_size subsection_size tol =
     content (flush_paragraph
       (fold (process_block section_size subsection_size tol) (blocks p) init_builder))"

section \<open>External collaborators\<close>

text \<open>
  The calls into Camelot, PyMuPDF's image store, PIL, Tesseract and pdf2image are
  parameters of the model. Each returns its value or raises: \<open>Inl\<close> carries the
  exception, an instance of \<^verbatim>\<open>Exception\<close>, which is what the handlers of the source
  catch. A table is the grid \<^verbatim>\<open>t.df.values.tolist()\<close>; a decoded image is opaque.
\<close>

datatype exn = Exception string

datatype pil_image = PilImage nat

record env =
  fitz_open :: "exn + doc"
  pdfplumber_open :: "exn + unit"
  read_pdf :: "nat \<Rightarrow> string \<Rightarrow> exn + string list list list"
  extract_image :: "nat \<Rightarrow> exn + string"
  image_open :: "string \<Rightarrow> exn + pil_image"
  image_to_string :: "pil_image \<Rightarrow> exn + string"
  convert_from_path :: "nat \<Rightarrow> exn + pil_image list"

section \<open>extract_tables\<close>

text \<open>The body of the \<^verbatim>\<open>try\<close> of lines 158 to 171; an exception leaves it at once.\<close>

definition extract_tables_try :: "env \<Rightarrow> nat \<Rightarrow> string \<Rightarrow> exn + item list" where
  "extract_tables_try e page_no flavor_first =
     (case read_pdf e page_no flavor_first of
        Inl x \<Rightarrow> Inl x
      | Inr tables \<Rightarrow>
          (case (if tables = []
                 then read_pdf e page_no
                        (if flavor_first = ''stream'' then ''lattice'' else ''stream'')
                 else Inr tables) of
             Inl x \<Rightarrow> Inl x
           | Inr tables2 \<Rightarrow> Inr (map (\<lambda>t. Table None None t) tables2)))"

definition extract_tables :: "env \<Rightarrow> nat \<Rightarrow> string \<Rightarrow> exn + item list" where
  "extract_tables e page_no flavor_first =
     (case extract_tables_try e page_no flavor_first of
        Inl x \<Rightarrow> Inr []
      | Inr tables_out \<Rightarrow> Inr tables_out)"

section \<open>extract_images_and_ocr\<close>

text \<open>The inner \<^verbatim>\<open>try\<close> of lines 190 to 195: the description, or \<^verbatim>\<open>None\<close>.\<close>

definition ocr_desc :: "env \<Rightarrow> bool \<Rightarrow> pil_image \<Rightarrow> string option" where
  "ocr_desc e enable_ocr img =
     (if enable_ocr
      then (case image_to_string e img of Inl x \<Rightarrow> None | Inr t \<Rightarrow> Some (strip t))
      else None)"

text \<open>One turn of the loop of lines 181 to 210: the item appended for one image.\<close>

definition image_item :: "env \<Rightarrow> bool \<Rightarrow> nat \<Rightarrow> exn + item" where
  "image_item e enable_ocr xref =
     (case (case extract_image e xref of
              Inl x \<Rightarrow> Inl x
            | Inr image_bytes \<Rightarrow>
                (case image_open e image_bytes of
                   Inl x \<Rightarrow> Inl x
                 | Inr pil_img \<Rightarrow>
                     Inr (Chart None
                            (case ocr_desc e enable_ocr pil_img of
                               None \<Rightarrow> ''image detected''
                             | Some d \<Rightarrow> if d \<noteq> [] then d else ''image detected'')
                            None))) of
        Inl x \<Rightarrow> Inr (Chart None ''image detected (failed to extract)'' None)
      | Inr it \<Rightarrow> Inr it)"

fun collect :: "('a \<Rightarrow> exn + 'b) \<Rightarrow> 'a list \<Rightarrow> exn + 'b list" where
  "collect f [] = Inr []"
| "collect f (x # xs) =
     (case f x of
        Inl err \<Rightarrow> Inl err
      | Inr y \<Rightarrow> (case collect f xs of Inl err \<Rightarrow> Inl err | Inr ys \<Rightarrow> Inr (y # ys)))"

definition extract_images_and_ocr :: "env \<Rightarrow> page \<Rightarrow> bool \<Rightarrow> exn + item list" where
  "extract_images_and_ocr e p enable_ocr = collect (image_item e enable_ocr) (images p)"

section \<open>ocr_page_image\<close>

definition ocr_page_image :: "env \<Rightarrow> nat \<Rightarrow> exn + string" where
  "ocr_page_image e page_no =
     (case (case convert_from_path e page_no of
              Inl x \<Rightarrow> Inl x
            | Inr imgs \<Rightarrow>
                (case imgs of
                   [] \<Rightarrow> Inr None
                 | im # rest \<Rightarrow>
                     (case image_to_string e im of Inl x \<Rightarrow> Inl x | Inr t \<Rightarrow> Inr (Some t)))) of
        Inl x \<Rightarrow> Inr []
      | Inr None \<Rightarrow> Inr []
      | Inr (Some t) \<Rightarrow> Inr t)"

section \<open>parse_pdf\<close>

record page_result =
  page_number :: nat
  page_content :: "item list"

text \<open>The branch of lines 250 to 261, for a page without extractable text.\<close>

definition fallback_content :: "env \<Rightarrow> bool \<Rightarrow> nat \<Rightarrow> page \<Rightarrow> exn + item list" where
  "fallback_content e enable_ocr page_no p =
     (case (if enable_ocr
            then (case ocr_page_image e page_no of
                    Inl x \<Rightarrow> Inl x
                  | Inr ocr_text \<Rightarrow>
                      Inr (if ocr_text \<noteq> [] \<and> strip ocr_text \<noteq> []
                           then [Paragraph None None (clean_line ocr_text)] else []))
            else Inr []) of
        Inl x \<Rightarrow> Inl x
      | Inr content_items \<Rightarrow>
          (case extract_images_and_ocr e p enable_ocr of
             Inl x \<Rightarrow> Inl x
           | Inr imgs \<Rightarrow> Inr (content_items @ imgs)))"

text \<open>The branch of lines 263 to 272, the normal path.\<close>

definition normal_content ::
  "env \<Rightarrow> bool \<Rightarrow> rat option \<Rightarrow> rat option \<Rightarrow> nat \<Rightarrow> page \<Rightarrow> exn + item list" where
  "normal_content e enable_ocr section_size subsection_size page_no p =
     (let content_items =
            extract_paragraphs_and_headings_from_page p section_size subsection_size (1 / 2)
      in (case extract_tables e page_no ''stream'' of
            Inl x \<Rightarrow> Inl x
          | Inr tables \<Rightarrow>
              (case extract_images_and_ocr e p enable_ocr of
                 Inl x \<Rightarrow> Inl x
               | Inr imgs \<Rightarrow> Inr (content_items @ tables @ imgs))))"

text \<open>The body of the page loop, lines 242 to 277: the entry appended for page \<open>i\<close>.\<close>

definition page_entry ::
  "env \<Rightarrow> bool \<Rightarrow> rat option \<Rightarrow> rat option \<Rightarrow> doc \<Rightarrow> nat \<Rightarrow> exn + page_result" where
  "page_entry e enable_ocr section_size subsection_size d i =
     (let page_no = i + 1;
          p = d ! i
      in (case (if raw_text p = [] \<or> strip (raw_text p) = []
                then fallback_content e enable_ocr page_no p
                else normal_content e enable_ocr section_size subsection_size page_no p) of
            Inl x \<Rightarrow> Inl x
          | Inr content_items \<Rightarrow>
              Inr \<lparr>page_number = page_no, page_content = content_items\<rparr>))"

text \<open>The value of \<^verbatim>\<open>result["pages"]\<close> when the file is written, or the exception that
  leaves \<^verbatim>\<open>parse_pdf\<close>.\<close>

definition parse_pdf :: "env \<Rightarrow> bool \<Rightarrow> exn + page_result list" where
  "parse_pdf e enable_ocr =
     (case fitz_open e of
        Inl x \<Rightarrow> Inl x
      | Inr d \<Rightarrow>
          let sizes = gather_font_sizes d;
              section_size = section_size_of sizes;
              subsection_size = subsection_size_of sizes
          in (case pdfplumber_open e of
                Inl x \<Rightarrow> Inl x
              | Inr u \<Rightarrow>
                  collect (page_entry e enable_ocr section_size subsection_size d)
                    [0 ..< length d]))"

section \<open>A sample document\<close>

text \<open>
  Two pages. The first has a numbered title at size 14, a numbered subtitle at size 11, a
  body line at size 9 with a non-breaking space and a run of blanks in it, an image
  block, and two images; the second has no text and one image. The table extractor finds
  one table on page 1 in its second flavour and fails on every other page; image 3
  cannot be extracted, the OCR of image 4 fails, image 5 reads \<^verbatim>\<open>Revenue chart\<close>; page 2
  renders to an image that reads \<^verbatim>\<open>Q3 revenue up 12%\<close>, the other pages do not render.
\<close>

definition sample_doc :: doc where
  "sample_doc =
     [\<lparr>blocks = [TextBlock [[\<lparr>span_text = ''1 Overview'', span_size = 14, span_font = ''Helvetica''\<rparr>],
                              [\<lparr>span_text = ''1.1 Results'', span_size = 11, span_font = ''Helvetica''\<rparr>],
                              [\<lparr>span_text = ''Net'' @ [nbsp] @ '' Income   grew'', span_size = 9,
                                span_font = ''Times''\<rparr>]],
                  ImageBlock],
        raw_text = ''1 Overview 1.1 Results Net Income grew'', images = [3, 4]\<rparr>,
      \<lparr>blocks = [ImageBlock], raw_text = '' '', images = [5]\<rparr>]"

definition sample_env :: env where
  "sample_env =
     \<lparr>fitz_open = Inr sample_doc,
      pdfplumber_open = Inr (),
      read_pdf = (\<lambda>n f. if n = 1
                           then (if f = ''stream'' then Inr [] else Inr [[[''a'', ''b'']]])
                           else Inl (Exception ''camelot'')),
      extract_image = (\<lambda>x. if x = 3 then Inl (Exception ''xref'')
                            else if x = 4 then Inr ''a'' else Inr ''b''),
      image_open = (\<lambda>b. if b = ''a'' then Inr (PilImage 0) else Inr (PilImage 2)),
      image_to_string = (\<lambda>p. if p = PilImage 0 then Inl (Exception ''tesseract'')
                              else if p = PilImage 1 then Inr ''Q3 revenue up 12%''
                              else Inr ''Revenue chart''),
      convert_from_path = (\<lambda>n. if n = 2 then Inr [PilImage 1] else Inl (Exception ''poppler''))\<rparr>"

section \<open>Predicates for the paragraph invariant\<close>

text \<open>An item has text unless it is a paragraph with the empty text; a string is
  non-blank when some character of it is not whitespace; a builder is in order when every
  buffered line is non-blank and every emitted item has text.\<close>

fun has_text :: "item \<Rightarrow> bool" where
  "has_text (Paragraph s u t) = (t \<noteq> [])"
| "has_text (Heading l t) = True"
| "has_text (Chart s d c) = True"
| "has_text (Table s d g) = True"

definition nonblank :: "string \<Rightarrow> bool" where
  "nonblank s = list_ex (\<lambda>c. \<not> is_space c) s"

definition builder_ok :: "builder \<Rightarrow> bool" where
  "builder_ok st = (list_all nonblank (paragraph_buffer st) \<and> list_all has_text (content st))"

section \<open>The heading rules\<close>

lemma bold_short_imp_size_match:
  assumes "0 \<le> tol" and "bold_short is_bold line_text max_size section_size subsection_size"
  shows "size_match subsection_size max_size tol"
  using assms
  by (cases subsection_size)
     (auto simp: bold_short_def size_match_def truthy_def py_or_def mean_def split: if_splits)

text \<open>
  Claim C3. The bold-and-short branch is never taken. With a subsection size in force, a
  line whose largest size exceeds it has already met the subsection-size guard, for every
  tolerance that is not negative (the source uses 0.5); without one, the guard compares
  the line's largest size with itself. Hence no heading comes from the bold heuristic.
\<close>

theorem bold_branch_unreachable:
  assumes "0 \<le> tol"
  shows "which_rule section_size subsection_size tol max_size is_bold line_text num \<noteq> BoldShort
    \<and> (bold_short is_bold line_text max_size section_size subsection_size
         \<longrightarrow> size_match subsection_size max_size tol)
    \<and> (\<not> truthy subsection_size
         \<longrightarrow> \<not> bold_short is_bold line_text max_size section_size subsection_size)"
  using bold_short_imp_size_match[OF assms]
  by (auto simp: which_rule_def bold_short_def)

text \<open>
  The theorem at tolerance 0.5: a bold line \<^verbatim>\<open>Summary\<close> of size 11 under the sizes 12 and
  10 meets the bold guard and the subsection-size guard, and under no sizes at all it
  misses the bold guard.
\<close>

theorem bold_branch_unreachable_witness:
  "(0::rat) \<le> 1 / 2
   \<and> which_rule (Some 12) (Some 10) (1 / 2) 11 True ''Summary'' None \<noteq> BoldShort
   \<and> bold_short True ''Summary'' 11 (Some 12) (Some 10)
   \<and> size_match (Some 10) 11 (1 / 2)
   \<and> \<not> truthy None
   \<and> \<not> bold_short True ''Summary'' 11 None None"
  using bold_branch_unreachable [of "1 / 2" "Some 12" "Some 10" 11 True "''Summary''" None]
    bold_branch_unreachable [of "1 / 2" None None 11 True "''Summary''" None]
  by (simp add: bold_short_def size_match_def truthy_def py_or_def mean_def)

section \<open>Image blocks\<close>

text \<open>
  Claim C10, as the spec words it: an image block flushes the buffer and emits one chart
  item with the current section, no chart data and the description
  \<^verbatim>\<open>image block detected\<close>. On the empty builder the emitted description is a different
  string.
\<close>

theorem image_block_description_counterexample:
  "content (process_block None None (1 / 2) ImageBlock init_builder) \<noteq>
     content (flush_paragraph init_builder) @
       [Chart (current_section init_builder) ''image block detected'' None]"
  by (simp add: process_block_def flush_paragraph_def init_builder_def Let_def)

text \<open>
  Claim C10, amended. An image block flushes the buffer first and then emits exactly one
  chart item with the current section, no chart data and the description
  \<^verbatim>\<open>image block detected (image data handled separately)\<close>; the buffer is empty
  afterwards and the section context is unchanged.
\<close>

theorem image_block_placeholder:
  "process_block section_size subsection_size tol ImageBlock st =
     (flush_paragraph st)\<lparr>content := content (flush_paragraph st) @
        [Chart (current_section st)
           ''image block detected (image data handled separately)'' None]\<rparr>
   \<and> paragraph_buffer (process_block section_size subsection_size tol ImageBlock st) = []
   \<and> current_section (process_block section_size subsection_size tol ImageBlock st)
       = current_section st
   \<and> current_sub (process_block section_size subsection_size tol ImageBlock st)
       = current_sub st"
  by (simp add: process_block_def flush_paragraph_def Let_def)

section \<open>Numbered lines and the size rules\<close>

text \<open>
  Claim C1 says that a line matching the numbering pattern is classified by its numbering
  whatever its font size. The source tests the two size guards first (lines 93 and 104,
  each ending in \<^verbatim>\<open>continue\<close>) and reaches the numbering branch of line 114, under its
  comment \<^verbatim>\<open>numbered heading overrides sizes\<close>, only when neither holds. The line
  \<^verbatim>\<open>2.1 Revenue Growth\<close> at the section size 12 is parsed as numbering \<^verbatim>\<open>2.1\<close>, title
  \<^verbatim>\<open>Revenue Growth\<close>, level 2, and is emitted as a heading of level 1.
\<close>

theorem numbered_line_at_section_size:
  "is_numbered_heading ''2.1 Revenue Growth''
     = Some \<lparr>numbering = ''2.1'', title = ''Revenue Growth'', level = 2\<rparr>
   \<and> which_rule (Some 12) (Some 10) (1 / 2) 12 False ''2.1 Revenue Growth''
        (is_numbered_heading ''2.1 Revenue Growth'') = SectionSize
   \<and> content (process_line (Some 12) (Some 10) (1 / 2) init_builder
        [\<lparr>span_text = ''2.1 Revenue Growth'', span_size = 12, span_font = ''Helvetica''\<rparr>])
      = [Heading 1 ''Revenue Growth'']"
  by code_simp

section \<open>Classification without reference sizes\<close>

lemma which_rule_degraded:
  assumes "\<not> truthy section_size" and "\<not> truthy subsection_size"
  shows "which_rule section_size subsection_size tol max_size is_bold line_text num
           = (if num \<noteq> None then Numbered else Body)"
  using assms
  by (auto simp: which_rule_def size_match_def truthy_def bold_short_def split: option.splits)

lemma process_line_degraded_plain:
  assumes "\<not> truthy section_size" and "\<not> truthy subsection_size"
    and "is_numbered_heading (line_text_of spans) = None"
  shows "process_line section_size subsection_size tol st spans =
           (if line_text_of spans = [] then st
            else st\<lparr>paragraph_buffer := paragraph_buffer st @ [line_text_of spans]\<rparr>)"
proof (cases spans)
  case Nil
  then show ?thesis by (simp add: process_line_def line_text_of_def strip_def)
next
  case (Cons s ss)
  then show ?thesis
    using assms by (simp add: process_line_def Let_def which_rule_degraded)
qed

text \<open>With both sizes unset, a bold line of fewer than 120 characters that the numbering
  rule does not take never yields a heading.\<close>

lemma no_bold_heading_without_sizes:
  "\<not> (\<exists>spans t. is_bold_of spans \<and> length (line_text_of spans) < 120
         \<and> is_numbered_heading (line_text_of spans) = None
         \<and> content (process_line None None (1 / 2) init_builder spans) = [Heading 2 t])"
proof
  assume "\<exists>spans t. is_bold_of spans \<and> length (line_text_of spans) < 120
         \<and> is_numbered_heading (line_text_of spans) = None
         \<and> content (process_line None None (1 / 2) init_builder spans) = [Heading 2 t]"
  then obtain spans t where n: "is_numbered_heading (line_text_of spans) = None"
    and c: "content (process_line None None (1 / 2) init_builder spans) = [Heading 2 t]"
    by blast
  have "content (process_line None None (1 / 2) init_builder spans) = []"
    using process_line_degraded_plain [of None None spans "1 / 2" init_builder] n
    by (simp add: truthy_def init_builder_def)
  with c show False by simp
qed

text \<open>
  Claim C2 says that without reference sizes the bold-short heuristic still classifies:
  some bold line of fewer than 120 characters becomes a subsection heading. The source
  has the branch, under its comment \<^verbatim>\<open>if bold and short, treat as possible heading
  (heuristic)\<close> on line 125, but its guard on line 126 compares the line's largest size with
  itself when there is no subsection size, so the branch is never taken. The bold line
  \<^verbatim>\<open>Summary\<close> with both sizes unset is bold and short, misses the guard, is classified
  as body text and comes out as a paragraph; the same happens through \<^verbatim>\<open>parse_pdf\<close> for
  a document whose only span has size 0, where the section size is the false value 0 and
  there is no subsection size.
\<close>

theorem bold_line_without_sizes_is_body_text:
  "is_bold_of [\<lparr>span_text = ''Summary'', span_size = 12, span_font = ''Helvetica-Bold''\<rparr>]
   \<and> length (line_text_of
        [\<lparr>span_text = ''Summary'', span_size = 12, span_font = ''Helvetica-Bold''\<rparr>]) < 120
   \<and> \<not> bold_short True ''Summary'' 12 None None
   \<and> which_rule None None (1 / 2) 12 True ''Summary'' (is_numbered_heading ''Summary'') = Body
   \<and> extract_paragraphs_and_headings_from_page
        \<lparr>blocks = [TextBlock
           [[\<lparr>span_text = ''Summary'', span_size = 12, span_font = ''Helvetica-Bold''\<rparr>]]],
         raw_text = ''Summary'', images = []\<rparr> None None (1 / 2)
      = [Paragraph None None ''Summary'']
   \<and> gather_font_sizes
        [\<lparr>blocks = [TextBlock
           [[\<lparr>span_text = ''Summary'', span_size = 0, span_font = ''Helvetica-Bold''\<rparr>]]],
          raw_text = ''Summary'', images = []\<rparr>] = [0]
   \<and> parse_pdf
        \<lparr>fitz_open = Inr
           [\<lparr>blocks = [TextBlock
              [[\<lparr>span_text = ''Summary'', span_size = 0, span_font = ''Helvetica-Bold''\<rparr>]]],
             raw_text = ''Summary'', images = []\<rparr>],
         pdfplumber_open = Inr (),
         read_pdf = (\<lambda>n f. Inr []),
         extract_image = (\<lambda>x. Inl (Exception ''xref'')),
         image_open = (\<lambda>b. Inl (Exception ''image'')),
         image_to_string = (\<lambda>p. Inl (Exception ''tesseract'')),
         convert_from_path = (\<lambda>n. Inl (Exception ''poppler''))\<rparr> False
      = Inr [\<lparr>page_number = 1, page_content = [Paragraph None None ''Summary'']\<rparr>]"
  by code_simp

section \<open>The font profile\<close>

lemma gather_distinct: "distinct (gather_font_sizes d)"
  by (simp add: gather_font_sizes_def)

lemma gather_set: "set (gather_font_sizes d) = set (all_sizes d)"
  by (simp add: gather_font_sizes_def)

lemma gather_descending: "sorted_wrt (\<lambda>a b. b < a) (gather_font_sizes d)"
proof -
  have "sorted_wrt (<) (sort (remdups (all_sizes d)))"
    by (simp add: strict_sorted_iff)
  then show ?thesis
    by (simp add: gather_font_sizes_def sorted_wrt_rev)
qed

lemma gather_length: "length (gather_font_sizes d) = card (set (all_sizes d))"
  by (simp add: gather_font_sizes_def length_remdups_card_conv)

lemma round1_tenth:
  "\<exists>k::int. round1 x = of_int k / 10 \<and> \<bar>of_int k - 10 * x\<bar> \<le> 1 / 2
      \<and> (\<bar>of_int k - 10 * x\<bar> = 1 / 2 \<longrightarrow> even k)"
proof -
  define f where "f = \<lfloor>x * 10\<rfloor>"
  define d where "d = x * 10 - of_int f"
  define k where "k = (if d < 1 / 2 then f else if 1 / 2 < d then f + 1
                       else if even f then f else f + 1)"
  have r: "round1 x = of_int k / 10"
    by (simp add: round1_def Let_def k_def d_def f_def)
  have d0: "0 \<le> d" and d1: "d < 1" unfolding d_def f_def by linarith+
  have x: "10 * x = of_int f + d" by (simp add: d_def)
  have b: "\<bar>of_int k - 10 * x\<bar> \<le> 1 / 2"
    unfolding x k_def using d0 d1 by (simp add: abs_if)
  have e: "even k" if "\<bar>of_int k - 10 * x\<bar> = 1 / 2"
  proof (cases "d = 1 / 2")
    case True
    then show ?thesis by (simp add: k_def)
  next
    case False
    then have "\<bar>of_int k - 10 * x\<bar> \<noteq> 1 / 2"
      unfolding x k_def using d0 d1 by (simp add: abs_if)
    with that show ?thesis by simp
  qed
  show ?thesis using r b e by blast
qed


lemma block_sizes_observed:
  "set (block_sizes b) =
     {r. \<exists>ls l s. b = TextBlock ls \<and> l \<in> set ls \<and> s \<in> set l \<and> r = round1 (span_size s)}"
  by (cases b) auto

lemma all_sizes_observed:
  "set (all_sizes d) =
     {r. \<exists>p ls l s. p \<in> set d \<and> TextBlock ls \<in> set (blocks p) \<and> l \<in> set ls \<and> s \<in> set l
           \<and> r = round1 (span_size s)}"
  unfolding all_sizes_def by (auto simp: block_sizes_observed) blast+

lemma descending_first_is_Max:
  assumes "sorted_wrt (\<lambda>a b. b < (a::rat)) xs" and "xs \<noteq> []"
  shows "xs ! 0 = Max (set xs)"
proof -
  have "y \<le> xs ! 0" if y: "y \<in> set xs" for y
  proof -
    obtain j where j: "j < length xs" "xs ! j = y"
      using y by (auto simp: in_set_conv_nth)
    show ?thesis
    proof (cases "j = 0")
      case True
      then show ?thesis using j by simp
    next
      case False
      then have "xs ! j < xs ! 0"
        using sorted_wrt_nth_less [OF assms(1), of 0 j] j by simp
      then show ?thesis using j by simp
    qed
  qed
  moreover have "xs ! 0 \<in> set xs" using assms(2) by simp
  ultimately have "Max (set xs) = xs ! 0" by (intro Max_eqI) simp_all
  then show ?thesis by simp
qed

lemma descending_second_is_Max:
  assumes "sorted_wrt (\<lambda>a b. b < (a::rat)) xs" and "2 \<le> length xs"
  shows "xs ! 1 = Max (set xs - {xs ! 0})"
proof -
  have lt: "xs ! 1 < xs ! 0"
    using sorted_wrt_nth_less [OF assms(1), of 0 1] assms(2) by simp
  have "y \<le> xs ! 1" if y: "y \<in> set xs - {xs ! 0}" for y
  proof -
    obtain j where j: "j < length xs" "xs ! j = y"
      using y by (auto simp: in_set_conv_nth)
    have "j \<noteq> 0"
    proof
      assume "j = 0"
      then have "y = xs ! 0" using j by simp
      then show False using y by simp
    qed
    show ?thesis
    proof (cases "j = 1")
      case True
      then show ?thesis using j by simp
    next
      case False
      then have "xs ! j < xs ! 1"
        using sorted_wrt_nth_less [OF assms(1), of 1 j] j \<open>j \<noteq> 0\<close> by simp
      then show ?thesis using j by simp
    qed
  qed
  moreover have "xs ! 1 \<in> set xs - {xs ! 0}"
    using lt assms(2) by simp
  ultimately have "Max (set xs - {xs ! 0}) = xs ! 1" by (intro Max_eqI) simp_all
  then show ?thesis by simp
qed

text \<open>
  Claim C7. The size list of the font profile has no duplicates, is strictly descending
  and holds exactly the sizes, rounded to one decimal, of the spans in the lines of the
  text blocks of all pages of the document. When that set is not empty the section size
  is its largest member. With at least two distinct rounded sizes both reference sizes
  are set, the section size is the largest and the subsection size the second largest
  size observed, and the section size is strictly the larger; with fewer than two the
  subsection size is unset, and with no text span at all the section size is unset.
  Rounding takes a size to the nearest multiple of one tenth, a tie to the even one.
\<close>

theorem font_profile_sizes:
  "let S = {r. \<exists>p ls l s. p \<in> set d \<and> TextBlock ls \<in> set (blocks p) \<and> l \<in> set ls
                  \<and> s \<in> set l \<and> r = round1 (span_size s)}
   in distinct (gather_font_sizes d)
      \<and> sorted_wrt (\<lambda>a b. b < a) (gather_font_sizes d)
      \<and> set (gather_font_sizes d) = S
      \<and> (S \<noteq> {} \<longrightarrow> section_size_of (gather_font_sizes d) = Some (Max S))
      \<and> (2 \<le> card S \<longrightarrow>
           (\<exists>a b. section_size_of (gather_font_sizes d) = Some a
                  \<and> subsection_size_of (gather_font_sizes d) = Some b
                  \<and> b < a \<and> a \<in> S \<and> b \<in> S \<and> a = Max S \<and> b = Max (S - {a})))
      \<and> (card S < 2 \<longrightarrow> subsection_size_of (gather_font_sizes d) = None)
      \<and> (S = {} \<longrightarrow> section_size_of (gather_font_sizes d) = None)
      \<and> (\<exists>k::int. round1 x = of_int k / 10 \<and> \<bar>of_int k - 10 * x\<bar> \<le> 1 / 2
             \<and> (\<bar>of_int k - 10 * x\<bar> = 1 / 2 \<longrightarrow> even k))"
proof -
  let ?s = "gather_font_sizes d"
  define S where "S = {r. \<exists>p ls l s. p \<in> set d \<and> TextBlock ls \<in> set (blocks p) \<and> l \<in> set ls
                  \<and> s \<in> set l \<and> r = round1 (span_size s)}"
  have S: "S = set (all_sizes d)" unfolding S_def by (simp only: all_sizes_observed)
  have st: "set ?s = S" by (simp add: S gather_set)
  have len: "length ?s = card S" by (simp add: S gather_length)
  have first: "section_size_of ?s = Some (Max S)" if "S \<noteq> {}"
  proof -
    have ne: "?s \<noteq> []" using that st by auto
    then have "?s ! 0 = Max S"
      using descending_first_is_Max [OF gather_descending ne] st by simp
    then show ?thesis using ne by (cases ?s) (simp_all add: section_size_of_def)
  qed
  have two: "\<exists>a b. section_size_of ?s = Some a \<and> subsection_size_of ?s = Some b
               \<and> b < a \<and> a \<in> S \<and> b \<in> S \<and> a = Max S \<and> b = Max (S - {a})"
    if h: "2 \<le> card S"
  proof -
    have l2: "2 \<le> length ?s" using h len by simp
    then have ne: "?s \<noteq> []" by auto
    have lt: "?s ! 1 < ?s ! 0"
      using sorted_wrt_nth_less [OF gather_descending, of 0 1 d] l2 by simp
    have "?s ! 0 \<in> set ?s" and "?s ! 1 \<in> set ?s"
      using l2 by (simp_all only: nth_mem)
    then have m0: "?s ! 0 \<in> S" and m1: "?s ! 1 \<in> S"
      by (simp_all only: st)
    have x0: "?s ! 0 = Max S"
      using descending_first_is_Max [OF gather_descending ne] st by simp
    have x1: "?s ! 1 = Max (S - {?s ! 0})"
      using descending_second_is_Max [OF gather_descending l2] st by simp
    have "section_size_of ?s = Some (?s ! 0)" and "subsection_size_of ?s = Some (?s ! 1)"
      using l2 by (simp_all add: section_size_of_def subsection_size_of_def)
    then show ?thesis using lt m0 m1 x0 x1 by blast
  qed
  have one: "subsection_size_of ?s = None" if "card S < 2"
    using that len by (simp add: subsection_size_of_def)
  have none: "section_size_of ?s = None" if "S = {}"
    using that st by (simp add: section_size_of_def)
  have "distinct ?s \<and> sorted_wrt (\<lambda>a b. b < a) ?s \<and> set ?s = S
      \<and> (S \<noteq> {} \<longrightarrow> section_size_of ?s = Some (Max S))
      \<and> (2 \<le> card S \<longrightarrow>
           (\<exists>a b. section_size_of ?s = Some a \<and> subsection_size_of ?s = Some b
                  \<and> b < a \<and> a \<in> S \<and> b \<in> S \<and> a = Max S \<and> b = Max (S - {a})))
      \<and> (card S < 2 \<longrightarrow> subsection_size_of ?s = None)
      \<and> (S = {} \<longrightarrow> section_size_of ?s = None)
      \<and> (\<exists>k::int. round1 x = of_int k / 10 \<and> \<bar>of_int k - 10 * x\<bar> \<le> 1 / 2
             \<and> (\<bar>of_int k - 10 * x\<bar> = 1 / 2 \<longrightarrow> even k))"
    using gather_distinct gather_descending st first two one none round1_tenth by blast
  then show ?thesis unfolding S_def Let_def .
qed


text \<open>
  The theorem on the sample document with the sizes 14, 11 and 9, on a document with the
  single size 9 and on one without any text span; the size 0.25 is a tie and rounds to
  0.2.
\<close>

theorem font_profile_sizes_witness:
  "2 \<le> card
       {r. \<exists>p ls l s. p \<in> set sample_doc \<and> TextBlock ls \<in> set (blocks p) \<and> l \<in> set ls
            \<and> s \<in> set l \<and> r = round1 (span_size s)}
   \<and> gather_font_sizes sample_doc = [14, 11, 9]
   \<and> section_size_of (gather_font_sizes sample_doc) = Some 14
   \<and> subsection_size_of (gather_font_sizes sample_doc) = Some 11
   \<and> card
       {r. \<exists>p ls l s. p \<in> set [\<lparr>blocks = [TextBlock [[\<lparr>span_text = ''only'', span_size = 9, span_font = ''F''\<rparr>]]], raw_text = ''only'', images = []\<rparr>] \<and> TextBlock ls \<in> set (blocks p) \<and> l \<in> set ls
            \<and> s \<in> set l \<and> r = round1 (span_size s)} < 2
   \<and> section_size_of (gather_font_sizes
        [\<lparr>blocks = [TextBlock [[\<lparr>span_text = ''only'', span_size = 9, span_font = ''F''\<rparr>]]], raw_text = ''only'', images = []\<rparr>]) = Some 9
   \<and> subsection_size_of (gather_font_sizes
        [\<lparr>blocks = [TextBlock [[\<lparr>span_text = ''only'', span_size = 9, span_font = ''F''\<rparr>]]], raw_text = ''only'', images = []\<rparr>]) = None
   \<and> {r. \<exists>p ls l s. p \<in> set [\<lparr>blocks = [ImageBlock], raw_text = [], images = [7]\<rparr>] \<and> TextBlock ls \<in> set (blocks p) \<and> l \<in> set ls
            \<and> s \<in> set l \<and> r = round1 (span_size s)} = {}
   \<and> section_size_of (gather_font_sizes [\<lparr>blocks = [ImageBlock], raw_text = [], images = [7]\<rparr>]) = None
   \<and> round1 (1 / 4) = 2 / 10 \<and> \<bar>of_int 2 - 10 * (1 / 4 :: rat)\<bar> = 1 / 2 \<and> even (2 :: int)"
proof -
  let ?d1 = "[\<lparr>blocks = [TextBlock [[\<lparr>span_text = ''only'', span_size = 9, span_font = ''F''\<rparr>]]], raw_text = ''only'', images = []\<rparr>]"
  let ?d0 = "[\<lparr>blocks = [ImageBlock], raw_text = [], images = [7]\<rparr>]"
  have a2: "all_sizes sample_doc = [14, 11, 9]"
    by (simp add: sample_doc_def all_sizes_def round1_def Let_def)
  have a1: "all_sizes ?d1 = [9]"
    by (simp add: all_sizes_def round1_def Let_def)
  have a0: "all_sizes ?d0 = []"
    by (simp add: all_sizes_def)
  have g2: "gather_font_sizes sample_doc = [14, 11, 9]"
    unfolding gather_font_sizes_def a2 by simp
  note t2 = font_profile_sizes [of sample_doc "1 / 4", unfolded Let_def,
      folded all_sizes_observed, unfolded a2]
  note t1 = font_profile_sizes [of ?d1 "1 / 4", unfolded Let_def,
      folded all_sizes_observed, unfolded a1]
  note t0 = font_profile_sizes [of ?d0 "1 / 4", unfolded Let_def,
      folded all_sizes_observed, unfolded a0]
  have c2: "2 \<le> card (set [14, 11, 9 :: rat])" unfolding List.card_set by simp
  have c1: "card (set [9 :: rat]) < 2" unfolding List.card_set by simp
  have m2: "Max (set [14, 11, 9 :: rat]) = 14" by simp
  have n2: "Max (set [14, 11, 9 :: rat] - {14}) = 11" by simp
  have s2: "section_size_of (gather_font_sizes sample_doc) = Some 14
      \<and> subsection_size_of (gather_font_sizes sample_doc) = Some 11"
    using t2 c2 m2 n2 by auto
  have s1: "section_size_of (gather_font_sizes ?d1) = Some 9
      \<and> subsection_size_of (gather_font_sizes ?d1) = None"
    using t1 c1 by simp
  have s0: "section_size_of (gather_font_sizes ?d0) = None"
    using t0 by blast
  have r0: "round1 (1 / 4) = 2 / 10" by code_simp
  have r: "round1 (1 / 4) = 2 / 10 \<and> \<bar>of_int 2 - 10 * (1 / 4 :: rat)\<bar> = 1 / 2 \<and> even (2 :: int)"
    using r0 by simp
  show ?thesis
    unfolding all_sizes_observed [symmetric] a2 a1 a0
    using c2 c1 g2 s2 s1 s0 r by simp
qed

section \<open>Page assembly and the collaborators\<close>

lemma collect_Inr_map: "collect f xs = Inr ys \<Longrightarrow> map f xs = map Inr ys"
  by (induction xs arbitrary: ys) (auto split: sum.splits)

lemma collect_total:
  "(\<And>x. x \<in> set xs \<Longrightarrow> \<exists>y. f x = Inr y) \<Longrightarrow> \<exists>ys. collect f xs = Inr ys"
  by (induction xs) (fastforce split: sum.splits)+

lemma collect_nth:
  assumes "collect f xs = Inr ys"
  shows "length ys = length xs" and "i < length xs \<Longrightarrow> f (xs ! i) = Inr (ys ! i)"
proof -
  have m: "map f xs = map Inr ys" using assms by (rule collect_Inr_map)
  then show l: "length ys = length xs" by (metis length_map)
  show "f (xs ! i) = Inr (ys ! i)" if "i < length xs"
    using m l that by (metis nth_map)
qed

lemma extract_tables_total:
  "\<exists>grids. extract_tables e n f = Inr (map (\<lambda>t. Table None None t) grids)"
proof (cases "extract_tables_try e n f")
  case (Inl x)
  then have "extract_tables e n f = Inr (map (\<lambda>t. Table None None t) [])"
    by (simp add: extract_tables_def)
  then show ?thesis by blast
next
  case (Inr ts)
  then obtain g where "ts = map (\<lambda>t. Table None None t) g"
    by (auto simp: extract_tables_try_def split: sum.splits if_splits)
  with Inr show ?thesis by (auto simp: extract_tables_def)
qed

lemma image_item_total:
  "\<exists>dsc. image_item e ocr x = Inr (Chart None dsc None)"
  by (simp add: image_item_def split: sum.splits)

lemma extract_images_total:
  "\<exists>dscs. extract_images_and_ocr e p ocr = Inr (map (\<lambda>dsc. Chart None dsc None) dscs)
      \<and> length dscs = length (images p)"
proof -
  have "\<exists>dscs. collect (image_item e ocr) xs = Inr (map (\<lambda>dsc. Chart None dsc None) dscs)
      \<and> length dscs = length xs" for xs
  proof (induction xs)
    case Nil
    then show ?case by simp
  next
    case (Cons x xs)
    obtain dsc where d: "image_item e ocr x = Inr (Chart None dsc None)"
      using image_item_total by blast
    obtain dscs where ds: "collect (image_item e ocr) xs = Inr (map (\<lambda>dsc. Chart None dsc None) dscs)"
      and l: "length dscs = length xs"
      using Cons.IH by blast
    have "collect (image_item e ocr) (x # xs) = Inr (map (\<lambda>dsc. Chart None dsc None) (dsc # dscs))"
      using d ds by simp
    then show ?case using l by (metis length_Cons)
  qed
  then show ?thesis by (simp add: extract_images_and_ocr_def)
qed

lemma ocr_page_image_total: "\<exists>t. ocr_page_image e n = Inr t"
  by (simp add: ocr_page_image_def split: sum.splits list.splits option.splits)

lemma fallback_content_eq:
  assumes "ocr_page_image e n = Inr t" and "extract_images_and_ocr e p ocr = Inr imgs"
  shows "fallback_content e ocr n p =
           Inr ((if ocr \<and> strip t \<noteq> [] then [Paragraph None None (clean_line t)] else []) @ imgs)"
  using assms by (auto simp: fallback_content_def strip_def)

lemma normal_content_eq:
  assumes "extract_tables e n ''stream'' = Inr tables"
    and "extract_images_and_ocr e p ocr = Inr imgs"
  shows "normal_content e ocr ss sub n p =
           Inr (extract_paragraphs_and_headings_from_page p ss sub (1 / 2) @ tables @ imgs)"
  using assms by (simp add: normal_content_def)

lemma page_entry_total:
  "\<exists>c. page_entry e ocr ss sub d i = Inr \<lparr>page_number = i + 1, page_content = c\<rparr>"
proof -
  obtain t where t: "ocr_page_image e (i + 1) = Inr t" using ocr_page_image_total by blast
  obtain imgs where im: "extract_images_and_ocr e (d ! i) ocr = Inr imgs"
    using extract_images_total by blast
  obtain tables where tb: "extract_tables e (i + 1) ''stream'' = Inr tables"
    using extract_tables_total by blast
  show ?thesis
    using fallback_content_eq [OF t im] normal_content_eq [OF tb im]
    by (simp add: page_entry_def Let_def)
qed

lemma parse_pdf_pages:
  assumes "fitz_open e = Inr d" and "pdfplumber_open e = Inr u"
  shows "\<exists>res. parse_pdf e ocr = Inr res \<and> length res = length d
           \<and> (\<forall>i < length d.
                 page_entry e ocr (section_size_of (gather_font_sizes d))
                   (subsection_size_of (gather_font_sizes d)) d i = Inr (res ! i))"
proof -
  let ?f = "page_entry e ocr (section_size_of (gather_font_sizes d))
              (subsection_size_of (gather_font_sizes d)) d"
  obtain res where r: "collect ?f [0 ..< length d] = Inr res"
    using collect_total [of "[0 ..< length d]" ?f] page_entry_total by blast
  have p: "parse_pdf e ocr = Inr res"
    using assms r by (simp add: parse_pdf_def Let_def)
  have l: "length res = length d" using collect_nth(1) [OF r] by simp
  have "?f i = Inr (res ! i)" if "i < length d" for i
    using collect_nth(2) [OF r, of i] that by simp
  with p l show ?thesis by blast
qed

text \<open>
  Claim C8. When the document opens, \<^verbatim>\<open>parse_pdf\<close> returns, whatever the other
  collaborators do, and the page numbers of its result are 1, 2, ..., N in this order
  for a document of N pages: one entry per page, no duplicate and no gap.
\<close>

theorem page_numbers_contiguous:
  assumes "fitz_open e = Inr d" and "pdfplumber_open e = Inr u"
  shows "\<exists>res. parse_pdf e enable_ocr = Inr res \<and> length res = length d
           \<and> map page_number res = [1 ..< length d + 1]"
proof -
  obtain res where p: "parse_pdf e enable_ocr = Inr res" and l: "length res = length d"
    and n: "\<forall>i < length d.
                 page_entry e enable_ocr (section_size_of (gather_font_sizes d))
                   (subsection_size_of (gather_font_sizes d)) d i = Inr (res ! i)"
    using parse_pdf_pages [OF assms] by blast
  have "page_number (res ! i) = i + 1" if "i < length d" for i
    using n that page_entry_total [of e enable_ocr "section_size_of (gather_font_sizes d)"
        "subsection_size_of (gather_font_sizes d)" d i]
    by auto
  then have "map page_number res = map Suc [0 ..< length d]"
    using l by (auto intro: nth_equalityI)
  then have "map page_number res = [1 ..< length d + 1]"
    by (simp add: map_Suc_upt)
  with p l show ?thesis by blast
qed

text \<open>
  The sample document opens and has two pages; its result has the page numbers 1 and 2.
\<close>

theorem page_numbers_contiguous_witness:
  "fitz_open sample_env = Inr sample_doc \<and> pdfplumber_open sample_env = Inr ()
   \<and> length sample_doc = 2
   \<and> (\<exists>res. parse_pdf sample_env True = Inr res \<and> length res = 2
         \<and> map page_number res = [1, 2])"
proof -
  have f: "fitz_open sample_env = Inr sample_doc" by (simp add: sample_env_def)
  have p: "pdfplumber_open sample_env = Inr ()" by (simp add: sample_env_def)
  have l: "length sample_doc = 2" by (simp add: sample_doc_def)
  have u: "[1 ..< length sample_doc + 1] = [1, 2]" unfolding l by (simp add: upt_rec)
  show ?thesis
    using page_numbers_contiguous [OF f p, of True] f p l u by simp
qed


text \<open>
  Claim C9. Table extraction, image extraction with OCR and page OCR always return a
  value, and so does \<^verbatim>\<open>parse_pdf\<close> once the document is open: no exception of a
  collaborator leaves its call site. A table extraction that fails, in its first call or
  in the retry with the other flavour after an empty first result, gives the empty table
  list, and the page keeps its text items and its image items. An image that cannot be
  extracted or opened gives the chart item described \<^verbatim>\<open>image detected (failed to extract)\<close>,
  an image whose OCR fails gives the chart item described \<^verbatim>\<open>image detected\<close>, and the
  item of every image depends on the calls for that image alone. A page OCR that fails
  in rendering or in recognition gives the empty text, and the page keeps its image
  items.
\<close>

theorem collaborator_failures_absorbed:
  "(\<exists>ts. extract_tables e page_no flavor = Inr ts)
   \<and> (\<exists>cs. extract_images_and_ocr e p enable_ocr = Inr cs
          \<and> map Inr cs = map (image_item e enable_ocr) (images p))
   \<and> (\<exists>t. ocr_page_image e page_no = Inr t)
   \<and> (fitz_open e = Inr d \<and> pdfplumber_open e = Inr u \<longrightarrow>
        (\<exists>res. parse_pdf e enable_ocr = Inr res \<and> length res = length d))
   \<and> (read_pdf e page_no flavor = Inl x \<longrightarrow> extract_tables e page_no flavor = Inr [])
   \<and> (read_pdf e page_no ''stream'' = Inl x
        \<and> extract_images_and_ocr e p enable_ocr = Inr imgs \<longrightarrow>
        normal_content e enable_ocr section_size subsection_size page_no p =
          Inr (extract_paragraphs_and_headings_from_page p section_size subsection_size (1 / 2)
               @ imgs))
   \<and> (extract_image e xref = Inl x
        \<or> (extract_image e xref = Inr bytes \<and> image_open e bytes = Inl x) \<longrightarrow>
        image_item e enable_ocr xref =
          Inr (Chart None ''image detected (failed to extract)'' None))
   \<and> (extract_image e xref = Inr bytes \<and> image_open e bytes = Inr img
        \<and> image_to_string e img = Inl x \<longrightarrow>
        image_item e enable_ocr xref = Inr (Chart None ''image detected'' None))
   \<and> (convert_from_path e page_no = Inl x
        \<or> (convert_from_path e page_no = Inr (img # rest) \<and> image_to_string e img = Inl x) \<longrightarrow>
        ocr_page_image e page_no = Inr []
        \<and> (extract_images_and_ocr e p enable_ocr = Inr imgs \<longrightarrow>
             fallback_content e enable_ocr page_no p = Inr imgs))
   \<and> (read_pdf e page_no flavor = Inr []
        \<and> read_pdf e page_no (if flavor = ''stream'' then ''lattice'' else ''stream'') = Inl x
        \<longrightarrow> extract_tables e page_no flavor = Inr [])"
proof -
  have c1: "\<exists>ts. extract_tables e page_no flavor = Inr ts"
    using extract_tables_total by blast
  have c2: "\<exists>cs. extract_images_and_ocr e p enable_ocr = Inr cs
          \<and> map Inr cs = map (image_item e enable_ocr) (images p)"
    using extract_images_total [of e p enable_ocr] collect_Inr_map
    by (metis extract_images_and_ocr_def)
  have c3: "\<exists>t. ocr_page_image e page_no = Inr t"
    using ocr_page_image_total by blast
  have c4: "\<exists>res. parse_pdf e enable_ocr = Inr res \<and> length res = length d"
    if "fitz_open e = Inr d \<and> pdfplumber_open e = Inr u"
    using that parse_pdf_pages [of e d u enable_ocr] by blast
  have c5: "extract_tables e page_no flavor = Inr []" if "read_pdf e page_no flavor = Inl x"
    using that by (simp add: extract_tables_def extract_tables_try_def)
  have c6: "normal_content e enable_ocr section_size subsection_size page_no p =
          Inr (extract_paragraphs_and_headings_from_page p section_size subsection_size (1 / 2)
               @ imgs)"
    if "read_pdf e page_no ''stream'' = Inl x
        \<and> extract_images_and_ocr e p enable_ocr = Inr imgs"
    using that
    by (simp add: normal_content_def extract_tables_def extract_tables_try_def)
  have c7: "image_item e enable_ocr xref =
          Inr (Chart None ''image detected (failed to extract)'' None)"
    if "extract_image e xref = Inl x
        \<or> (extract_image e xref = Inr bytes \<and> image_open e bytes = Inl x)"
    using that by (auto simp: image_item_def)
  have c8: "image_item e enable_ocr xref = Inr (Chart None ''image detected'' None)"
    if "extract_image e xref = Inr bytes \<and> image_open e bytes = Inr img
        \<and> image_to_string e img = Inl x"
    using that by (simp add: image_item_def ocr_desc_def)
  have c9: "ocr_page_image e page_no = Inr []"
    if "convert_from_path e page_no = Inl x
        \<or> (convert_from_path e page_no = Inr (img # rest) \<and> image_to_string e img = Inl x)"
    using that by (auto simp: ocr_page_image_def)
  have c10: "fallback_content e enable_ocr page_no p = Inr imgs"
    if "convert_from_path e page_no = Inl x
        \<or> (convert_from_path e page_no = Inr (img # rest) \<and> image_to_string e img = Inl x)"
      and "extract_images_and_ocr e p enable_ocr = Inr imgs"
    using fallback_content_eq [OF c9 [OF that(1)] that(2)] by (simp add: strip_def)
  have c11: "extract_tables e page_no flavor = Inr []"
    if "read_pdf e page_no flavor = Inr []
        \<and> read_pdf e page_no (if flavor = ''stream'' then ''lattice'' else ''stream'') = Inl x"
    using that by (simp add: extract_tables_def extract_tables_try_def)
  show ?thesis
    using c1 c2 c3 c4 c5 c6 c7 c8 c9 c10 c11 by blast
qed

text \<open>
  The theorem on the sample document: the table extractor fails on page 2, image 3
  cannot be extracted, the OCR of image 4 fails and page 1 does not render; and with a
  table extractor that finds nothing in its first flavour and fails in its second.
\<close>

theorem collaborator_failures_absorbed_witness:
  "fitz_open sample_env = Inr sample_doc \<and> pdfplumber_open sample_env = Inr ()
   \<and> (\<exists>res. parse_pdf sample_env True = Inr res \<and> length res = length sample_doc)
   \<and> read_pdf sample_env 2 ''stream'' = Inl (Exception ''camelot'')
   \<and> extract_tables sample_env 2 ''stream'' = Inr []
   \<and> extract_images_and_ocr sample_env (sample_doc ! 0) True =
       Inr [Chart None ''image detected (failed to extract)'' None,
            Chart None ''image detected'' None]
   \<and> normal_content sample_env True (Some 14) (Some 11) 2 (sample_doc ! 0) =
       Inr (extract_paragraphs_and_headings_from_page (sample_doc ! 0) (Some 14) (Some 11) (1 / 2)
            @ [Chart None ''image detected (failed to extract)'' None,
               Chart None ''image detected'' None])
   \<and> extract_image sample_env 3 = Inl (Exception ''xref'')
   \<and> image_item sample_env True 3 = Inr (Chart None ''image detected (failed to extract)'' None)
   \<and> extract_image sample_env 4 = Inr ''a'' \<and> image_open sample_env ''a'' = Inr (PilImage 0)
   \<and> image_to_string sample_env (PilImage 0) = Inl (Exception ''tesseract'')
   \<and> image_item sample_env True 4 = Inr (Chart None ''image detected'' None)
   \<and> convert_from_path sample_env 1 = Inl (Exception ''poppler'')
   \<and> ocr_page_image sample_env 1 = Inr []
   \<and> fallback_content sample_env True 1 (sample_doc ! 0) =
       Inr [Chart None ''image detected (failed to extract)'' None,
            Chart None ''image detected'' None]
   \<and> read_pdf
        (sample_env\<lparr>read_pdf := (\<lambda>n f. if f = ''stream'' then Inr [] else Inl (Exception ''camelot''))\<rparr>)
        1 ''stream'' = Inr []
   \<and> read_pdf
        (sample_env\<lparr>read_pdf := (\<lambda>n f. if f = ''stream'' then Inr [] else Inl (Exception ''camelot''))\<rparr>)
        1 ''lattice'' = Inl (Exception ''camelot'')
   \<and> extract_tables
        (sample_env\<lparr>read_pdf := (\<lambda>n f. if f = ''stream'' then Inr [] else Inl (Exception ''camelot''))\<rparr>)
        1 ''stream'' = Inr []"
proof -
  let ?e2 = "(sample_env\<lparr>read_pdf := (\<lambda>n f. if f = ''stream'' then Inr [] else Inl (Exception ''camelot''))\<rparr>)"
  have r2: "read_pdf ?e2 1 ''stream'' = Inr []
      \<and> read_pdf ?e2 1 (if ''stream'' = ''stream'' then ''lattice'' else ''stream'')
          = Inl (Exception ''camelot'')"
    by simp
  have r3: "read_pdf ?e2 1 ''lattice'' = Inl (Exception ''camelot'')"
    by simp
  have tb2: "extract_tables ?e2 1 ''stream'' = Inr []"
    using r2 collaborator_failures_absorbed
      [where e = ?e2 and page_no = 1 and flavor = "''stream''" and x = "Exception ''camelot''"]
    by blast
  have f: "fitz_open sample_env = Inr sample_doc" by (simp add: sample_env_def)
  have p: "pdfplumber_open sample_env = Inr ()" by (simp add: sample_env_def)
  have r: "read_pdf sample_env 2 ''stream'' = Inl (Exception ''camelot'')"
    by (simp add: sample_env_def)
  have x3: "extract_image sample_env 3 = Inl (Exception ''xref'')"
    by (simp add: sample_env_def)
  have x4: "extract_image sample_env 4 = Inr ''a'' \<and> image_open sample_env ''a'' = Inr (PilImage 0)
      \<and> image_to_string sample_env (PilImage 0) = Inl (Exception ''tesseract'')"
    by (simp add: sample_env_def)
  have c: "convert_from_path sample_env 1 = Inl (Exception ''poppler'')"
    by (simp add: sample_env_def)
  have im: "images (sample_doc ! 0) = [3, 4]" by (simp add: sample_doc_def)
  note t2 = collaborator_failures_absorbed
    [of sample_env 2 "''stream''" "sample_doc ! 0" True sample_doc "()" "Exception ''camelot''"
      "[Chart None ''image detected (failed to extract)'' None,
        Chart None ''image detected'' None]" "Some 14" "Some 11"
      3 "''a''" "PilImage 0" "[]"]
  note t3 = collaborator_failures_absorbed
    [of sample_env 1 "''stream''" "sample_doc ! 0" True sample_doc "()" "Exception ''xref''"
      "[Chart None ''image detected (failed to extract)'' None,
        Chart None ''image detected'' None]" "Some 14" "Some 11"
      3 "''a''" "PilImage 0" "[]"]
  note t4 = collaborator_failures_absorbed
    [of sample_env 1 "''stream''" "sample_doc ! 0" True sample_doc "()" "Exception ''tesseract''"
      "[Chart None ''image detected (failed to extract)'' None,
        Chart None ''image detected'' None]" "Some 14" "Some 11"
      4 "''a''" "PilImage 0" "[]"]
  note t1 = collaborator_failures_absorbed
    [of sample_env 1 "''stream''" "sample_doc ! 0" True sample_doc "()" "Exception ''poppler''"
      "[Chart None ''image detected (failed to extract)'' None,
        Chart None ''image detected'' None]" "Some 14" "Some 11"
      4 "''a''" "PilImage 0" "[]"]
  have i3: "image_item sample_env True 3 =
      Inr (Chart None ''image detected (failed to extract)'' None)"
    using t3 x3 by blast
  have i4: "image_item sample_env True 4 = Inr (Chart None ''image detected'' None)"
    using t4 x4 by blast
  have imgs: "extract_images_and_ocr sample_env (sample_doc ! 0) True =
       Inr [Chart None ''image detected (failed to extract)'' None,
            Chart None ''image detected'' None]"
    by (simp add: extract_images_and_ocr_def im i3 i4)
  have res: "\<exists>res. parse_pdf sample_env True = Inr res \<and> length res = length sample_doc"
    using t2 f p by blast
  have tb: "extract_tables sample_env 2 ''stream'' = Inr []"
    using t2 r by blast
  have nc: "normal_content sample_env True (Some 14) (Some 11) 2 (sample_doc ! 0) =
       Inr (extract_paragraphs_and_headings_from_page (sample_doc ! 0) (Some 14) (Some 11) (1 / 2)
            @ [Chart None ''image detected (failed to extract)'' None,
               Chart None ''image detected'' None])"
    using t2 r imgs by blast
  have oc: "ocr_page_image sample_env 1 = Inr []"
    using t1 c by blast
  have fc: "fallback_content sample_env True 1 (sample_doc ! 0) =
       Inr [Chart None ''image detected (failed to extract)'' None,
            Chart None ''image detected'' None]"
    using t1 c imgs by blast
  show ?thesis
    using f p res r tb imgs nc x3 i3 x4 i4 c oc fc r2 r3 tb2 by blast
qed


text \<open>
  Claim C6. For a page with extractable text the content list is the output of
  \<^verbatim>\<open>extract_paragraphs_and_headings_from_page\<close>, then the table items in the order of
  the extractor, each with section \<^verbatim>\<open>None\<close>, then one chart item per image, each with
  section \<^verbatim>\<open>None\<close>; nothing is put between the text-derived items.
\<close>

theorem text_page_content_order:
  assumes "fitz_open e = Inr d" and "pdfplumber_open e = Inr u"
    and "i < length d" and "strip (raw_text (d ! i)) \<noteq> []"
  shows "\<exists>res grids dscs.
           parse_pdf e enable_ocr = Inr res
           \<and> extract_tables e (i + 1) ''stream'' = Inr (map (\<lambda>t. Table None None t) grids)
           \<and> extract_images_and_ocr e (d ! i) enable_ocr
               = Inr (map (\<lambda>dsc. Chart None dsc None) dscs)
           \<and> length dscs = length (images (d ! i))
           \<and> res ! i =
               \<lparr>page_number = i + 1,
                page_content =
                  extract_paragraphs_and_headings_from_page (d ! i)
                    (section_size_of (gather_font_sizes d))
                    (subsection_size_of (gather_font_sizes d)) (1 / 2)
                  @ map (\<lambda>t. Table None None t) grids
                  @ map (\<lambda>dsc. Chart None dsc None) dscs\<rparr>"
proof -
  let ?ss = "section_size_of (gather_font_sizes d)"
  let ?sub = "subsection_size_of (gather_font_sizes d)"
  obtain res where p: "parse_pdf e enable_ocr = Inr res"
    and n: "\<forall>i < length d. page_entry e enable_ocr ?ss ?sub d i = Inr (res ! i)"
    using parse_pdf_pages [OF assms(1,2)] by blast
  obtain grids where
    tb: "extract_tables e (i + 1) ''stream'' = Inr (map (\<lambda>t. Table None None t) grids)"
    using extract_tables_total by blast
  obtain dscs where
    im: "extract_images_and_ocr e (d ! i) enable_ocr = Inr (map (\<lambda>dsc. Chart None dsc None) dscs)"
    and l: "length dscs = length (images (d ! i))"
    using extract_images_total by blast
  have ne: "raw_text (d ! i) \<noteq> []"
    using assms(4) by (auto simp: strip_def)
  have "page_entry e enable_ocr ?ss ?sub d i =
          Inr \<lparr>page_number = i + 1,
               page_content =
                 extract_paragraphs_and_headings_from_page (d ! i) ?ss ?sub (1 / 2)
                 @ map (\<lambda>t. Table None None t) grids
                 @ map (\<lambda>dsc. Chart None dsc None) dscs\<rparr>"
    using normal_content_eq [OF tb im] assms(4) ne by (simp add: page_entry_def Let_def)
  then have "res ! i =
          \<lparr>page_number = i + 1,
           page_content =
             extract_paragraphs_and_headings_from_page (d ! i) ?ss ?sub (1 / 2)
             @ map (\<lambda>t. Table None None t) grids
             @ map (\<lambda>dsc. Chart None dsc None) dscs\<rparr>"
    using n assms(3) by simp
  with p tb im l show ?thesis by blast
qed

text \<open>
  Page 1 of the sample document: two headings, a paragraph and the placeholder of the
  image block, then the table, then the two image items.
\<close>

theorem text_page_content_order_witness:
  "fitz_open sample_env = Inr sample_doc \<and> pdfplumber_open sample_env = Inr ()
   \<and> 0 < length sample_doc \<and> strip (raw_text (sample_doc ! 0)) \<noteq> []
   \<and> (\<exists>res. parse_pdf sample_env True = Inr res
         \<and> page_content (res ! 0) =
             [Heading 1 ''Overview'', Heading 2 ''Results'',
              Paragraph (Some ''Overview'') (Some ''Results'') ''Net Income grew'',
              Chart (Some ''Overview'')
                ''image block detected (image data handled separately)'' None,
              Table None None [[''a'', ''b'']],
              Chart None ''image detected (failed to extract)'' None,
              Chart None ''image detected'' None])"
proof -
  have f: "fitz_open sample_env = Inr sample_doc" by (simp add: sample_env_def)
  have p: "pdfplumber_open sample_env = Inr ()" by (simp add: sample_env_def)
  have l: "0 < length sample_doc" by (simp add: sample_doc_def)
  have s: "strip (raw_text (sample_doc ! 0)) \<noteq> []" by code_simp
  have g: "gather_font_sizes sample_doc = [14, 11, 9]" by code_simp
  have b: "extract_paragraphs_and_headings_from_page (sample_doc ! 0) (Some 14) (Some 11) (1 / 2)
      = [Heading 1 ''Overview'', Heading 2 ''Results'',
         Paragraph (Some ''Overview'') (Some ''Results'') ''Net Income grew'',
         Chart (Some ''Overview'')
           ''image block detected (image data handled separately)'' None]"
    by code_simp
  have t: "extract_tables sample_env (0 + 1) ''stream'' = Inr [Table None None [[''a'', ''b'']]]"
    by code_simp
  have im: "extract_images_and_ocr sample_env (sample_doc ! 0) True =
       Inr [Chart None ''image detected (failed to extract)'' None,
            Chart None ''image detected'' None]"
    by code_simp
  obtain res grids dscs where r: "parse_pdf sample_env True = Inr res"
    and t': "extract_tables sample_env (0 + 1) ''stream'' = Inr (map (\<lambda>t. Table None None t) grids)"
    and im': "extract_images_and_ocr sample_env (sample_doc ! 0) True
               = Inr (map (\<lambda>dsc. Chart None dsc None) dscs)"
    and c: "res ! 0 =
               \<lparr>page_number = 0 + 1,
                page_content =
                  extract_paragraphs_and_headings_from_page (sample_doc ! 0)
                    (section_size_of (gather_font_sizes sample_doc))
                    (subsection_size_of (gather_font_sizes sample_doc)) (1 / 2)
                  @ map (\<lambda>t. Table None None t) grids
                  @ map (\<lambda>dsc. Chart None dsc None) dscs\<rparr>"
    using text_page_content_order [OF f p l s, of True] by blast
  have "page_content (res ! 0) =
             [Heading 1 ''Overview'', Heading 2 ''Results'',
              Paragraph (Some ''Overview'') (Some ''Results'') ''Net Income grew'',
              Chart (Some ''Overview'')
                ''image block detected (image data handled separately)'' None,
              Table None None [[''a'', ''b'']],
              Chart None ''image detected (failed to extract)'' None,
              Chart None ''image detected'' None]"
    using c t t' im im' b
    by (simp add: g section_size_of_def subsection_size_of_def)
  with f p l s r show ?thesis by blast
qed

text \<open>
  Claim C5. For a page without extractable text the content list is at most one
  paragraph with section and subsection \<^verbatim>\<open>None\<close>, present exactly when OCR is enabled
  and the page OCR returned text that is not blank, followed by one chart item per image
  of the page; no heading, no table and no other paragraph is in it.
\<close>

theorem textless_page_content:
  assumes "fitz_open e = Inr d" and "pdfplumber_open e = Inr u"
    and "i < length d" and "strip (raw_text (d ! i)) = []"
  shows "\<exists>res t dscs.
           parse_pdf e enable_ocr = Inr res
           \<and> ocr_page_image e (i + 1) = Inr t
           \<and> extract_images_and_ocr e (d ! i) enable_ocr
               = Inr (map (\<lambda>dsc. Chart None dsc None) dscs)
           \<and> length dscs = length (images (d ! i))
           \<and> res ! i =
               \<lparr>page_number = i + 1,
                page_content =
                  (if enable_ocr \<and> strip t \<noteq> []
                   then [Paragraph None None (clean_line t)] else [])
                  @ map (\<lambda>dsc. Chart None dsc None) dscs\<rparr>"
proof -
  let ?ss = "section_size_of (gather_font_sizes d)"
  let ?sub = "subsection_size_of (gather_font_sizes d)"
  obtain res where p: "parse_pdf e enable_ocr = Inr res"
    and n: "\<forall>i < length d. page_entry e enable_ocr ?ss ?sub d i = Inr (res ! i)"
    using parse_pdf_pages [OF assms(1,2)] by blast
  obtain t where t: "ocr_page_image e (i + 1) = Inr t"
    using ocr_page_image_total by blast
  obtain dscs where
    im: "extract_images_and_ocr e (d ! i) enable_ocr = Inr (map (\<lambda>dsc. Chart None dsc None) dscs)"
    and l: "length dscs = length (images (d ! i))"
    using extract_images_total by blast
  have "page_entry e enable_ocr ?ss ?sub d i =
          Inr \<lparr>page_number = i + 1,
               page_content =
                 (if enable_ocr \<and> strip t \<noteq> []
                  then [Paragraph None None (clean_line t)] else [])
                 @ map (\<lambda>dsc. Chart None dsc None) dscs\<rparr>"
    using fallback_content_eq [OF t im] assms(4) by (simp add: page_entry_def Let_def)
  then have "res ! i =
          \<lparr>page_number = i + 1,
           page_content =
             (if enable_ocr \<and> strip t \<noteq> []
              then [Paragraph None None (clean_line t)] else [])
             @ map (\<lambda>dsc. Chart None dsc None) dscs\<rparr>"
    using n assms(3) by simp
  with p t im l show ?thesis by blast
qed

text \<open>
  Page 2 of the sample document, with OCR enabled: the OCR paragraph and the chart item
  of its one image.
\<close>

theorem textless_page_content_witness:
  "fitz_open sample_env = Inr sample_doc \<and> pdfplumber_open sample_env = Inr ()
   \<and> 1 < length sample_doc \<and> strip (raw_text (sample_doc ! 1)) = []
   \<and> images (sample_doc ! 1) = [5]
   \<and> ocr_page_image sample_env 2 = Inr ''Q3 revenue up 12%''
   \<and> (\<exists>res. parse_pdf sample_env True = Inr res
         \<and> page_content (res ! 1) =
             [Paragraph None None ''Q3 revenue up 12%'',
              Chart None ''Revenue chart'' None])"
proof -
  have f: "fitz_open sample_env = Inr sample_doc" by (simp add: sample_env_def)
  have p: "pdfplumber_open sample_env = Inr ()" by (simp add: sample_env_def)
  have l: "1 < length sample_doc" by (simp add: sample_doc_def)
  have s: "strip (raw_text (sample_doc ! 1)) = []" by code_simp
  have i5: "images (sample_doc ! 1) = [5]" by (simp add: sample_doc_def)
  have o: "ocr_page_image sample_env (1 + 1) = Inr ''Q3 revenue up 12%''" by code_simp
  have st: "strip ''Q3 revenue up 12%'' \<noteq> []" by code_simp
  have cl: "clean_line ''Q3 revenue up 12%'' = ''Q3 revenue up 12%''" by code_simp
  have im: "extract_images_and_ocr sample_env (sample_doc ! 1) True =
       Inr [Chart None ''Revenue chart'' None]"
    by code_simp
  obtain res t dscs where r: "parse_pdf sample_env True = Inr res"
    and o': "ocr_page_image sample_env (1 + 1) = Inr t"
    and im': "extract_images_and_ocr sample_env (sample_doc ! 1) True
               = Inr (map (\<lambda>dsc. Chart None dsc None) dscs)"
    and c: "res ! 1 =
               \<lparr>page_number = 1 + 1,
                page_content =
                  (if True \<and> strip t \<noteq> []
                   then [Paragraph None None (clean_line t)] else [])
                  @ map (\<lambda>dsc. Chart None dsc None) dscs\<rparr>"
    using textless_page_content [OF f p l s, of True] by blast
  have "t = ''Q3 revenue up 12%''" using o o' by simp
  then have "page_content (res ! 1) =
             [Paragraph None None ''Q3 revenue up 12%'',
              Chart None ''Revenue chart'' None]"
    using c im im' st cl by simp
  with f p l s i5 o r show ?thesis by (simp del: One_nat_def)
qed

section \<open>Paragraph flushing and whitespace\<close>

lemma is_space_blank: "is_space (CHR '' '')" and is_space_nbsp: "is_space nbsp"
  by (simp_all add: is_space_def nbsp_def)

lemma concat_split_aux:
  "concat (split_aux cur s) = cur @ filter (\<lambda>c. \<not> is_space c) s"
  by (induction s arbitrary: cur) auto

lemma split_aux_list_all:
  "list_all (\<lambda>c. \<not> is_space c) cur \<Longrightarrow>
   list_all (\<lambda>w. w \<noteq> [] \<and> list_all (\<lambda>c. \<not> is_space c) w) (split_aux cur s)"
  by (induction s arbitrary: cur) simp_all

lemma split_aux_words:
  assumes "\<forall>c \<in> set cur. \<not> is_space c" and "w \<in> set (split_aux cur s)"
  shows "w \<noteq> [] \<and> (\<forall>c \<in> set w. \<not> is_space c)"
proof -
  have "list_all (\<lambda>c. \<not> is_space c) cur"
    using assms(1) by (simp add: list_all_iff)
  then have "list_all (\<lambda>w. w \<noteq> [] \<and> list_all (\<lambda>c. \<not> is_space c) w) (split_aux cur s)"
    by (rule split_aux_list_all)
  then show ?thesis
    using assms(2) by (simp add: list_all_iff)
qed

lemma split_ws_words:
  "w \<in> set (split_ws s) \<Longrightarrow> w \<noteq> [] \<and> (\<forall>c \<in> set w. \<not> is_space c)"
  using split_aux_words [of "[]" w s] by (simp add: split_ws_def)

lemma split_aux_word:
  "\<forall>c \<in> set w. \<not> is_space c \<Longrightarrow> split_aux cur (w @ r) = split_aux (cur @ w) r"
  by (induction w arbitrary: cur) auto

lemma split_aux_join:
  assumes "\<forall>w \<in> set ws. w \<noteq> [] \<and> (\<forall>c \<in> set w. \<not> is_space c)"
  shows "split_aux [] (join '' '' ws) = ws"
  using assms
proof (induction "'' ''" ws rule: join.induct)
  case 1
  then show ?case by simp
next
  case (2 x)
  then show ?case using split_aux_word [of x "[]" "[]"] by simp
next
  case (3 x y ys)
  have "split_aux [] (x @ '' '' @ join '' '' (y # ys))
          = split_aux x ('' '' @ join '' '' (y # ys))"
    using 3(2) split_aux_word [of x "[]"] by simp
  also have "\<dots> = x # split_aux [] (join '' '' (y # ys))"
    using 3(2) by (simp add: is_space_blank)
  finally show ?case using 3 by simp
qed

lemma split_aux_replace:
  "split_aux cur (replace_char nbsp (CHR '' '') s) = split_aux cur s"
  by (induction s arbitrary: cur) (auto simp: replace_char_def is_space_blank is_space_nbsp)

lemma split_ws_clean_line: "split_ws (clean_line t) = split_ws t"
proof -
  let ?ws = "split_ws (replace_char nbsp (CHR '' '') t)"
  have "split_aux [] (join '' '' ?ws) = ?ws"
    using split_ws_words by (intro split_aux_join) blast
  then show ?thesis
    by (simp add: clean_line_def split_ws_def split_aux_replace)
qed

lemma filter_join:
  "filter (\<lambda>c. \<not> is_space c) (join '' '' ws) = filter (\<lambda>c. \<not> is_space c) (concat ws)"
  by (induction "'' ''" ws rule: join.induct) (auto simp: is_space_blank)

lemma filter_clean_line:
  "filter (\<lambda>c. \<not> is_space c) (clean_line t) = filter (\<lambda>c. \<not> is_space c) t"
proof -
  have "filter (\<lambda>c. \<not> is_space c) (clean_line t)
          = filter (\<lambda>c. \<not> is_space c) (concat (split_ws (clean_line t)))"
    by (simp add: split_ws_def concat_split_aux)
  also have "\<dots> = filter (\<lambda>c. \<not> is_space c) (concat (split_ws t))"
    by (simp add: split_ws_clean_line)
  also have "\<dots> = filter (\<lambda>c. \<not> is_space c) t"
    by (simp add: split_ws_def concat_split_aux)
  finally show ?thesis .
qed

lemma join_spaces:
  assumes "\<forall>w \<in> set ws. w \<noteq> [] \<and> (\<forall>c \<in> set w. \<not> is_space c)"
    and "c \<in> set (join '' '' ws)" and "is_space c"
  shows "c = CHR '' ''"
  using assms
  by (induction "'' ''" ws rule: join.induct) auto

lemma contains_two:
  "contains (c # cs) [a, b] = ((c = a \<and> (\<exists>r. cs = b # r)) \<or> contains cs [a, b])"
  by (cases cs) auto

lemma no_double_word:
  "\<forall>c \<in> set w. \<not> is_space c \<Longrightarrow> \<not> contains w [CHR '' '', CHR '' '']"
  by (induction w) (auto simp: contains_two is_space_blank)

lemma no_double_append:
  assumes "\<forall>c \<in> set w. \<not> is_space c" and "\<not> contains r [CHR '' '', CHR '' '']"
    and "r \<noteq> []" and "\<not> is_space (hd r)"
  shows "\<not> contains (w @ CHR '' '' # r) [CHR '' '', CHR '' '']"
  using assms
proof (induction w)
  case Nil
  then show ?case by (cases r) (auto simp: contains_two is_space_blank)
next
  case (Cons a w)
  then show ?case by (auto simp: contains_two is_space_blank)
qed

lemma join_shape:
  assumes "\<forall>w \<in> set ws. w \<noteq> [] \<and> (\<forall>c \<in> set w. \<not> is_space c)" and "ws \<noteq> []"
  shows "join '' '' ws \<noteq> [] \<and> \<not> is_space (hd (join '' '' ws))
         \<and> \<not> is_space (last (join '' '' ws))
         \<and> \<not> contains (join '' '' ws) [CHR '' '', CHR '' '']"
  using assms
proof (induction "'' ''" ws rule: join.induct)
  case 1
  then show ?case by simp
next
  case (2 x)
  then show ?case by (simp add: no_double_word)
next
  case (3 x y ys)
  let ?r = "join '' '' (y # ys)"
  have ih: "?r \<noteq> [] \<and> \<not> is_space (hd ?r) \<and> \<not> is_space (last ?r)
         \<and> \<not> contains ?r [CHR '' '', CHR '' '']"
    using 3 by simp
  have x: "x \<noteq> []" "\<forall>c \<in> set x. \<not> is_space c" using 3(2) by simp_all
  have "\<not> contains (x @ CHR '' '' # ?r) [CHR '' '', CHR '' '']"
    using no_double_append [OF x(2)] ih by blast
  moreover have "\<not> is_space (hd (x @ CHR '' '' # ?r))" using x by (cases x) auto
  moreover have "\<not> is_space (last (x @ CHR '' '' # ?r))" using ih by simp
  ultimately show ?case by simp
qed

lemma strip_trimmed:
  assumes "s = [] \<or> (\<not> is_space (hd s) \<and> \<not> is_space (last s))"
  shows "strip s = s"
proof (cases s)
  case Nil
  then show ?thesis by (simp add: strip_def)
next
  case (Cons a as)
  then have h: "\<not> is_space (hd s)" and l: "\<not> is_space (last s)" using assms by auto
  have "dropWhile is_space s = s" using h by (simp add: dropWhile_eq_self_iff)
  moreover have "dropWhile is_space (rev s) = rev s"
    using l by (simp add: dropWhile_eq_self_iff hd_rev)
  ultimately show ?thesis by (simp add: strip_def)
qed

lemma clean_line_shape:
  "(\<forall>c \<in> set (clean_line t). is_space c \<longrightarrow> c = CHR '' '')
   \<and> \<not> contains (clean_line t) [CHR '' '', CHR '' '']
   \<and> strip (clean_line t) = clean_line t"
proof (cases "split_ws (replace_char nbsp (CHR '' '') t) = []")
  case True
  then show ?thesis by (simp add: clean_line_def strip_def)
next
  case False
  let ?ws = "split_ws (replace_char nbsp (CHR '' '') t)"
  have w: "\<forall>w \<in> set ?ws. w \<noteq> [] \<and> (\<forall>c \<in> set w. \<not> is_space c)"
    using split_ws_words by blast
  have sh: "join '' '' ?ws \<noteq> [] \<and> \<not> is_space (hd (join '' '' ?ws))
         \<and> \<not> is_space (last (join '' '' ?ws))
         \<and> \<not> contains (join '' '' ?ws) [CHR '' '', CHR '' '']"
    using join_shape [OF w False] .
  have "strip (join '' '' ?ws) = join '' '' ?ws"
    using sh by (intro strip_trimmed) blast
  then show ?thesis
    using sh join_spaces [OF w] by (auto simp: clean_line_def)
qed



lemma nonblank_filter: "nonblank s \<longleftrightarrow> filter (\<lambda>c. \<not> is_space c) s \<noteq> []"
  by (simp add: nonblank_def list_ex_iff filter_empty_conv)

lemma clean_line_nonempty: "nonblank t \<Longrightarrow> clean_line t \<noteq> []"
proof
  assume n: "nonblank t" and e: "clean_line t = []"
  have "filter (\<lambda>c. \<not> is_space c) t = filter (\<lambda>c. \<not> is_space c) (clean_line t)"
    by (simp add: filter_clean_line)
  then show False using n e by (simp add: nonblank_filter)
qed

lemma strip_subset: "set (strip s) \<subseteq> set s"
proof -
  have "set (strip s) = set (dropWhile is_space (rev (dropWhile is_space s)))"
    by (simp add: strip_def)
  also have "\<dots> \<subseteq> set (rev (dropWhile is_space s))"
    by (meson set_dropWhileD subsetI)
  also have "\<dots> \<subseteq> set s"
    using set_dropWhileD by fastforce
  finally show ?thesis .
qed

lemma strip_nonblank: "strip s \<noteq> [] \<Longrightarrow> nonblank (strip s)"
proof -
  assume a: "strip s \<noteq> []"
  let ?r = "rev (dropWhile is_space s)"
  have d: "dropWhile is_space ?r \<noteq> []" using a by (simp add: strip_def)
  then have "\<not> is_space (hd (dropWhile is_space ?r))" by (rule hd_dropWhile)
  moreover have "hd (dropWhile is_space ?r) \<in> set (strip s)"
    using d by (simp add: strip_def)
  ultimately show ?thesis by (auto simp: nonblank_def list_ex_iff)
qed

lemma strip_nonempty_nonblank: "strip s \<noteq> [] \<Longrightarrow> nonblank s"
  using strip_nonblank [of s] strip_subset [of s]
  by (auto simp: nonblank_def list_ex_iff)

lemma join_nonblank:
  assumes "ws \<noteq> []" and "list_all nonblank ws"
  shows "nonblank (join '' '' ws)"
proof -
  obtain w where w: "w \<in> set ws" using assms(1) by (cases ws) auto
  then have "nonblank w" using assms(2) by (simp add: list_all_iff)
  then obtain c where c: "c \<in> set w" "\<not> is_space c"
    by (auto simp: nonblank_def list_ex_iff)
  then have "c \<in> set (filter (\<lambda>c. \<not> is_space c) (concat ws))" using w by auto
  then have "filter (\<lambda>c. \<not> is_space c) (join '' '' ws) \<noteq> []"
    by (metis filter_join empty_iff empty_set)
  then show ?thesis by (simp add: nonblank_filter)
qed

lemma flush_ok: "builder_ok st \<Longrightarrow> builder_ok (flush_paragraph st)"
  using join_nonblank [of "paragraph_buffer st"] clean_line_nonempty
  by (simp add: builder_ok_def flush_paragraph_def)

lemma emit_section_ok: "builder_ok st \<Longrightarrow> builder_ok (emit_section t st)"
  using flush_ok [of st] by (simp add: builder_ok_def emit_section_def Let_def)

lemma emit_subsection_ok: "builder_ok st \<Longrightarrow> builder_ok (emit_subsection t st)"
  using flush_ok [of st] by (simp add: builder_ok_def emit_subsection_def Let_def)

lemma process_line_ok:
  assumes "builder_ok st"
  shows "builder_ok (process_line section_size subsection_size tol st spans)"
proof (cases spans)
  case Nil
  then show ?thesis using assms by (simp add: process_line_def)
next
  case (Cons s ss)
  show ?thesis
  proof (cases "line_text_of spans = []")
    case True
    then show ?thesis using assms Cons by (simp add: process_line_def)
  next
    case False
    then have nb: "nonblank (line_text_of spans)"
      using strip_nonblank by (simp add: line_text_of_def)
    have body: "builder_ok (st\<lparr>paragraph_buffer := paragraph_buffer st @ [line_text_of spans]\<rparr>)"
      using assms nb by (simp add: builder_ok_def)
    show ?thesis
      using Cons False body emit_section_ok [OF assms] emit_subsection_ok [OF assms]
      by (simp add: process_line_def Let_def split: rule.splits)
  qed
qed

lemma fold_lines_ok:
  "builder_ok st \<Longrightarrow>
   builder_ok (fold (\<lambda>l acc. process_line section_size subsection_size tol acc l) ls st)"
  by (induction ls arbitrary: st) (simp_all add: process_line_ok)

lemma process_block_ok:
  assumes "builder_ok st"
  shows "builder_ok (process_block section_size subsection_size tol b st)"
proof (cases b)
  case (TextBlock ls)
  then show ?thesis using fold_lines_ok [OF assms] by (simp add: process_block_def)
next
  case ImageBlock
  then show ?thesis
    using flush_ok [OF assms] by (simp add: process_block_def builder_ok_def Let_def)
next
  case OtherBlock
  then show ?thesis using flush_ok [OF assms] by (simp add: process_block_def)
qed

lemma fold_blocks_ok:
  "builder_ok st \<Longrightarrow>
   builder_ok (fold (process_block section_size subsection_size tol) bs st)"
  by (induction bs arbitrary: st) (simp_all add: process_block_ok)

lemma extract_has_text:
  "list_all has_text (extract_paragraphs_and_headings_from_page p section_size subsection_size tol)"
proof -
  have "builder_ok init_builder" by (simp add: builder_ok_def init_builder_def)
  then have "builder_ok (flush_paragraph
       (fold (process_block section_size subsection_size tol) (blocks p) init_builder))"
    by (intro flush_ok fold_blocks_ok)
  then show ?thesis
    by (simp add: extract_paragraphs_and_headings_from_page_def builder_ok_def)
qed

lemma page_entry_has_text:
  assumes "page_entry e ocr ss sub d i = Inr pr"
  shows "list_all has_text (page_content pr)"
proof -
  obtain t where t: "ocr_page_image e (i + 1) = Inr t" using ocr_page_image_total by blast
  obtain dscs where
    im: "extract_images_and_ocr e (d ! i) ocr = Inr (map (\<lambda>dsc. Chart None dsc None) dscs)"
    using extract_images_total by blast
  obtain grids where
    tb: "extract_tables e (i + 1) ''stream'' = Inr (map (\<lambda>t. Table None None t) grids)"
    using extract_tables_total by blast
  have c: "list_all has_text (map (\<lambda>dsc. Chart None dsc None) dscs)"
    and g: "list_all has_text (map (\<lambda>t. Table None None t) grids)"
    by (simp_all add: list_all_iff)
  have o: "strip t \<noteq> [] \<Longrightarrow> clean_line t \<noteq> []"
    using strip_nonempty_nonblank clean_line_nonempty by blast
  show ?thesis
    using assms fallback_content_eq [OF t im] normal_content_eq [OF tb im] c g o
      extract_has_text [of "d ! i" ss sub "1 / 2"]
    by (auto simp: page_entry_def Let_def split: if_splits)
qed

lemma parse_pdf_has_text:
  assumes "parse_pdf e ocr = Inr res" and "pr \<in> set res"
  shows "list_all has_text (page_content pr)"
proof -
  obtain d where d: "fitz_open e = Inr d"
    using assms(1) by (cases "fitz_open e") (simp_all add: parse_pdf_def)
  let ?f = "page_entry e ocr (section_size_of (gather_font_sizes d))
              (subsection_size_of (gather_font_sizes d)) d"
  have "collect ?f [0 ..< length d] = Inr res"
    using assms(1) d by (cases "pdfplumber_open e") (simp_all add: parse_pdf_def Let_def)
  then have "map ?f [0 ..< length d] = map Inr res" by (rule collect_Inr_map)
  then have "Inr pr \<in> set (map ?f [0 ..< length d])" using assms(2) by simp
  then obtain i where "?f i = Inr pr" by auto
  then show ?thesis by (rule page_entry_has_text)
qed


text \<open>
  Claim C4. Flushing an empty buffer changes nothing. Flushing a non-empty buffer appends
  exactly one paragraph, tagged with the current section and subsection, whose text is
  \<^verbatim>\<open>clean_line\<close> of the buffered lines joined by single spaces, and empties the buffer.
  \<^verbatim>\<open>clean_line\<close> keeps the words of its argument, separates them by single ASCII
  spaces (no other whitespace character and no two spaces in a row remain, the
  non-breaking space included) and leaves nothing to trim at the ends. No paragraph with
  the empty text is emitted, neither by the page builder nor in any page of a result of
  \<^verbatim>\<open>parse_pdf\<close>. The buffered line \<^verbatim>\<open>Net\xa0 Income   grew\<close> flushes as
  \<^verbatim>\<open>Net Income grew\<close>.
\<close>

theorem flush_paragraph_semantics:
  "(paragraph_buffer st = [] \<longrightarrow> flush_paragraph st = st)
   \<and> (paragraph_buffer st \<noteq> [] \<longrightarrow>
        flush_paragraph st =
          st\<lparr>content := content st @
                 [Paragraph (current_section st) (current_sub st)
                    (clean_line (join '' '' (paragraph_buffer st)))],
              paragraph_buffer := []\<rparr>)
   \<and> split_ws (clean_line t) = split_ws t
   \<and> (\<forall>c \<in> set (clean_line t). is_space c \<longrightarrow> c = CHR '' '')
   \<and> \<not> contains (clean_line t) [CHR '' '', CHR '' '']
   \<and> strip (clean_line t) = clean_line t
   \<and> Paragraph s u [] \<notin>
        set (extract_paragraphs_and_headings_from_page p section_size subsection_size tol)
   \<and> (parse_pdf e enable_ocr = Inr res \<and> pr \<in> set res \<longrightarrow>
        Paragraph s u [] \<notin> set (page_content pr))
   \<and> flush_paragraph
        (init_builder\<lparr>paragraph_buffer := [''Net'' @ [nbsp] @ '' Income   grew'']\<rparr>)
      = init_builder\<lparr>content := [Paragraph None None ''Net Income grew'']\<rparr>"
proof -
  have a: "flush_paragraph st = st" if "paragraph_buffer st = []"
    using that by (simp add: flush_paragraph_def)
  have b: "flush_paragraph st =
          st\<lparr>content := content st @
                 [Paragraph (current_section st) (current_sub st)
                    (clean_line (join '' '' (paragraph_buffer st)))],
              paragraph_buffer := []\<rparr>" if "paragraph_buffer st \<noteq> []"
    using that by (simp add: flush_paragraph_def)
  have c: "Paragraph s u [] \<notin>
        set (extract_paragraphs_and_headings_from_page p section_size subsection_size tol)"
    using extract_has_text [of p section_size subsection_size tol]
    by (auto simp: list_all_iff)
  have d: "Paragraph s u [] \<notin> set (page_content pr)"
    if "parse_pdf e enable_ocr = Inr res \<and> pr \<in> set res"
    using that parse_pdf_has_text [of e enable_ocr res pr] by (auto simp: list_all_iff)
  have f: "flush_paragraph
        (init_builder\<lparr>paragraph_buffer := [''Net'' @ [nbsp] @ '' Income   grew'']\<rparr>)
      = init_builder\<lparr>content := [Paragraph None None ''Net Income grew'']\<rparr>"
    by code_simp
  show ?thesis
    using a b c d f split_ws_clean_line [of t] clean_line_shape [of t] by blast
qed

text \<open>
  The theorem on the empty builder, on a buffer of two lines, on the text \<^verbatim>\<open>a  b\<close> and
  on the result for the sample document.
\<close>

theorem flush_paragraph_semantics_witness:
  "paragraph_buffer init_builder = []
   \<and> flush_paragraph init_builder = init_builder
   \<and> paragraph_buffer (init_builder\<lparr>paragraph_buffer := [''Net income'', ''grew'']\<rparr>) \<noteq> []
   \<and> flush_paragraph (init_builder\<lparr>paragraph_buffer := [''Net income'', ''grew'']\<rparr>)
       = init_builder\<lparr>content := [Paragraph None None ''Net income grew'']\<rparr>
   \<and> CHR '' '' \<in> set (clean_line ''a  b'') \<and> is_space (CHR '' '')
   \<and> parse_pdf sample_env True =
       Inr [\<lparr>page_number = 1,
             page_content =
               [Heading 1 ''Overview'', Heading 2 ''Results'',
                Paragraph (Some ''Overview'') (Some ''Results'') ''Net Income grew'',
                Chart (Some ''Overview'')
                  ''image block detected (image data handled separately)'' None,
                Table None None [[''a'', ''b'']],
                Chart None ''image detected (failed to extract)'' None,
                Chart None ''image detected'' None]\<rparr>,
            \<lparr>page_number = 2,
             page_content =
               [Paragraph None None ''Q3 revenue up 12%'',
                Chart None ''Revenue chart'' None]\<rparr>]
   \<and> Paragraph None None [] \<notin>
       set (page_content
         \<lparr>page_number = 2,
          page_content =
            [Paragraph None None ''Q3 revenue up 12%'',
             Chart None ''Revenue chart'' None]\<rparr>)"
proof -
  let ?st = "init_builder\<lparr>paragraph_buffer := [''Net income'', ''grew'']\<rparr>"
  let ?p2 = "\<lparr>page_number = 2,
             page_content =
               [Paragraph None None ''Q3 revenue up 12%'',
                Chart None ''Revenue chart'' None]\<rparr>"
  let ?res = "[\<lparr>page_number = 1,
             page_content =
               [Heading 1 ''Overview'', Heading 2 ''Results'',
                Paragraph (Some ''Overview'') (Some ''Results'') ''Net Income grew'',
                Chart (Some ''Overview'')
                  ''image block detected (image data handled separately)'' None,
                Table None None [[''a'', ''b'']],
                Chart None ''image detected (failed to extract)'' None,
                Chart None ''image detected'' None]\<rparr>, ?p2]"
  have e0: "paragraph_buffer init_builder = []" by (simp add: init_builder_def)
  have f0: "flush_paragraph init_builder = init_builder"
    using e0 flush_paragraph_semantics [where st = init_builder] by blast
  have e1: "paragraph_buffer ?st \<noteq> []" by simp
  have cl: "clean_line (join '' '' [''Net income'', ''grew'']) = ''Net income grew''"
    by code_simp
  have "flush_paragraph ?st =
          ?st\<lparr>content := content ?st @
                 [Paragraph (current_section ?st) (current_sub ?st)
                    (clean_line (join '' '' (paragraph_buffer ?st)))],
              paragraph_buffer := []\<rparr>"
    using e1 flush_paragraph_semantics [where st = ?st] by blast
  then have f1: "flush_paragraph ?st
       = init_builder\<lparr>content := [Paragraph None None ''Net income grew'']\<rparr>"
    using cl by (simp add: init_builder_def)
  have m: "CHR '' '' \<in> set (clean_line ''a  b'')" by code_simp
  have sp: "is_space (CHR '' '')"
    using m flush_paragraph_semantics [where t = "''a  b''"] by (simp add: is_space_def)
  have r: "parse_pdf sample_env True = Inr ?res" by code_simp
  have "Paragraph None None [] \<notin> set (page_content ?p2)"
    using r flush_paragraph_semantics
      [where e = sample_env and enable_ocr = True and res = ?res and pr = ?p2
         and s = None and u = None]
    by simp
  with e0 f0 e1 f1 m sp r show ?thesis by blast
qed

end
